theory Spec2Isabelle
  imports Main "HOL-Library.Word"
begin

unbundle bit_operations_syntax

section \<open>Bytes, integers and errors\<close>

text \<open>
  Python's \<open>bytes\<close> and \<open>bytearray\<close> are lists of 8-bit values; Python's integers are
  unbounded and are modelled by \<open>int\<close>. The shifts \<open><<\<close> and \<open>>>\<close> are \<open>push_bit\<close> and
  \<open>drop_bit\<close>, and \<open>|\<close>, \<open>&\<close>, \<open>~\<close> are \<open>OR\<close>, \<open>AND\<close>, \<open>NOT\<close> on \<open>int\<close>.
\<close>

type_synonym byte = "8 word"

text \<open>
  Every exception the modelled code can raise is a value:
  \<^item> \<open>StructError\<close>: \<open>struct.error\<close> of \<open>struct.pack\<close>, \<open>pack_into\<close> and \<open>unpack\<close>
    (a field out of range of its format, a buffer of the wrong size);
  \<^item> \<open>ReservedBitsNotZero\<close>: \<open>ValueError("Reserved bits should be set to zero")\<close>;
  \<^item> \<open>UnderlyingNotIpPacket\<close>:
    \<open>ValueError("Underlying packet should be IpPacket instance")\<close>;
  \<^item> \<open>IndexError\<close>: an index out of range of a byte buffer;
  \<^item> \<open>AssertionError\<close>: a failed \<open>assert\<close>;
  \<^item> \<open>InvalidArgument\<close>, \<open>MalformedOptions\<close>, \<open>LengthConstraintViolation\<close>: the errors
    of the helper modules, as section 7 of the specification names them;
  \<^item> \<open>OverflowError\<close>: an integer that does not fit \<open>int.to_bytes\<close>.
\<close>

datatype error =
    StructError
  | ReservedBitsNotZero
  | UnderlyingNotIpPacket
  | IndexError
  | AssertionError
  | InvalidArgument
  | MalformedOptions
  | LengthConstraintViolation
  | OverflowError

section \<open>\<open>port_scanner/utils/utils.py\<close>\<close>

text \<open>\<open>Utils.set_bit\<close> (the name \<open>set_bit\<close> is taken by the bit library).\<close>

definition set_bit_py :: "int \<Rightarrow> int \<Rightarrow> bool \<Rightarrow> int" where
  "set_bit_py num bit_mask val = (if val then num OR bit_mask else num AND NOT bit_mask)"

definition is_bit_set :: "int \<Rightarrow> int \<Rightarrow> bool" where
  "is_bit_set bits bit_mask = (bits AND bit_mask \<noteq> 0)"

text \<open>
  The loop of \<open>Utils.calc_checksum\<close>: \<open>for i in range(0, len(byte_buffer), 2)\<close> reads
  \<open>byte_buffer[i]\<close> and \<open>byte_buffer[i + 1]\<close>. When one byte is left, \<open>i + 1\<close> is out of
  range and the read raises \<open>IndexError\<close>.
\<close>

fun sum_words :: "byte list \<Rightarrow> int \<Rightarrow> error + int" where
  "sum_words [] checksum = Inr checksum"
| "sum_words [b0] checksum = Inl IndexError"
| "sum_words (b0 # b1 # rest) checksum =
     sum_words rest (checksum + (push_bit 8 (uint b0) + uint b1))"

definition calc_checksum :: "byte list \<Rightarrow> error + int" where
  "calc_checksum byte_buffer =
     (case sum_words byte_buffer 0 of
        Inl e \<Rightarrow> Inl e
      | Inr checksum \<Rightarrow>
          (let checksum = checksum + drop_bit 16 checksum
           in Inr (NOT checksum AND 0xffff)))"

section \<open>The Internet checksum as the specification words it\<close>

text \<open>
  Section 4.4 of the specification: the input is a sequence of 16-bit big-endian words, an
  odd last byte being the high byte of a word whose low byte is zero; the words are summed in
  a wider accumulator; the high 16 bits are added back into the low 16 bits until no carry
  remains; the result is the bitwise NOT of that, masked to 16 bits.
\<close>

fun be_words :: "byte list \<Rightarrow> nat list" where
  "be_words [] = []"
| "be_words [b0] = [unat b0 * 256]"
| "be_words (b0 # b1 # rest) = (unat b0 * 256 + unat b1) # be_words rest"

function fold_carry :: "nat \<Rightarrow> nat" where
  "fold_carry s = (if s < 65536 then s else fold_carry (s mod 65536 + s div 65536))"
  by pat_completeness auto
termination
proof (relation "measure (\<lambda>s. s)")
  show "wf (measure (\<lambda>s::nat. s))"
    by simp
next
  fix s :: nat
  assume big: "\<not> s < 65536"
  have d: "1 \<le> s div 65536"
    using big by (simp add: Suc_le_eq div_greater_zero_iff)
  have "s = 65536 * (s div 65536) + s mod 65536"
    by simp
  then have "s mod 65536 + s div 65536 < s"
    using d by linarith
  then show "(s mod 65536 + s div 65536, s) \<in> measure (\<lambda>s. s)"
    by simp
qed

declare fold_carry.simps [simp del]

definition internet_checksum :: "byte list \<Rightarrow> int" where
  "internet_checksum bs = NOT (int (fold_carry (sum_list (be_words bs)))) AND 0xffff"

section \<open>\<open>nally/core/layers/transport/tcp/tcp_control_bits.py\<close>\<close>

text \<open>
  Modelled from the spec: the base class \<open>BitFlags\<close> (\<open>nally/core/utils/bit_flags.py\<close>) is
  not among the sources. Section 4.1 of the specification: a container backed by one
  integer, all bits clear when new; \<open>set(mask, value)\<close> ORs the mask in when the value is
  true and ANDs its complement in when false; \<open>isSet(mask)\<close> tests the mask. The source
  reads the integer as \<open>flags\<close>; here it is \<open>flags_int\<close>, since \<open>flags\<close> is the packet's
  field. \<open>set_flag\<close> and \<open>is_flag_set\<close> go through \<open>Utils.set_bit\<close> and
  \<open>Utils.is_bit_set\<close>.
\<close>

datatype tcp_control_bits = TcpControlBits (flags_int: int)

definition set_flag :: "tcp_control_bits \<Rightarrow> int \<Rightarrow> bool \<Rightarrow> tcp_control_bits" where
  "set_flag self bit_mask val = TcpControlBits (set_bit_py (flags_int self) bit_mask val)"

definition is_flag_set :: "tcp_control_bits \<Rightarrow> int \<Rightarrow> bool" where
  "is_flag_set self bit_mask = is_bit_set (flags_int self) bit_mask"

text \<open>The nine bit masks of \<open>TcpControlBits\<close>.\<close>

definition NS :: int where "NS = 256"
definition CWR :: int where "CWR = 128"
definition ECE :: int where "ECE = 64"
definition URG :: int where "URG = 32"
definition ACK :: int where "ACK = 16"
definition PSH :: int where "PSH = 8"
definition RST :: int where "RST = 4"
definition SYN :: int where "SYN = 2"
definition FIN :: int where "FIN = 1"

text \<open>\<open>TcpControlBits.__init__\<close>: nine calls of \<open>set_flag\<close> on a new container.\<close>

definition TcpControlBits_init ::
  "bool \<Rightarrow> bool \<Rightarrow> bool \<Rightarrow> bool \<Rightarrow> bool \<Rightarrow> bool \<Rightarrow> bool \<Rightarrow> bool \<Rightarrow> bool \<Rightarrow> tcp_control_bits" where
  "TcpControlBits_init ns cwr ece urg ack psh rst syn fin =
     (let self = TcpControlBits 0;
          self = set_flag self NS ns;
          self = set_flag self CWR cwr;
          self = set_flag self ECE ece;
          self = set_flag self URG urg;
          self = set_flag self ACK ack;
          self = set_flag self PSH psh;
          self = set_flag self RST rst;
          self = set_flag self SYN syn;
          self = set_flag self FIN fin
      in self)"

definition from_int :: "int \<Rightarrow> tcp_control_bits" where
  "from_int bits =
     TcpControlBits_init
       (is_bit_set bits NS) (is_bit_set bits CWR) (is_bit_set bits ECE)
       (is_bit_set bits URG) (is_bit_set bits ACK) (is_bit_set bits PSH)
       (is_bit_set bits RST) (is_bit_set bits SYN) (is_bit_set bits FIN)"

definition ns :: "tcp_control_bits \<Rightarrow> bool" where "ns self = is_flag_set self NS"
definition cwr :: "tcp_control_bits \<Rightarrow> bool" where "cwr self = is_flag_set self CWR"
definition ece :: "tcp_control_bits \<Rightarrow> bool" where "ece self = is_flag_set self ECE"
definition urg :: "tcp_control_bits \<Rightarrow> bool" where "urg self = is_flag_set self URG"
definition ack :: "tcp_control_bits \<Rightarrow> bool" where "ack self = is_flag_set self ACK"
definition psh :: "tcp_control_bits \<Rightarrow> bool" where "psh self = is_flag_set self PSH"
definition rst :: "tcp_control_bits \<Rightarrow> bool" where "rst self = is_flag_set self RST"
definition syn :: "tcp_control_bits \<Rightarrow> bool" where "syn self = is_flag_set self SYN"
definition fin :: "tcp_control_bits \<Rightarrow> bool" where "fin self = is_flag_set self FIN"

text \<open>
  Python's \<open>str.strip()\<close> removes the characters for which \<open>str.isspace\<close> holds from
  both ends; among the ASCII characters these are the codes 9 to 13 and 28 to 32.
\<close>

definition isspace :: "char \<Rightarrow> bool" where
  "isspace c = (let n = (of_char c :: nat) in (9 \<le> n \<and> n \<le> 13) \<or> (28 \<le> n \<and> n \<le> 32))"

definition strip :: "string \<Rightarrow> string" where
  "strip s = rev (dropWhile isspace (rev (dropWhile isspace s)))"

text \<open>\<open>TcpControlBits.__str__\<close>.\<close>

definition TcpControlBits_str :: "tcp_control_bits \<Rightarrow> string" where
  "TcpControlBits_str self =
     (let flags_str = '''';
          flags_str = (if ns self then flags_str @ ''ns '' else flags_str);
          flags_str = (if cwr self then flags_str @ ''cwr '' else flags_str);
          flags_str = (if ece self then flags_str @ ''ece '' else flags_str);
          flags_str = (if urg self then flags_str @ ''urg '' else flags_str);
          flags_str = (if ack self then flags_str @ ''ack '' else flags_str);
          flags_str = (if psh self then flags_str @ ''psh '' else flags_str);
          flags_str = (if rst self then flags_str @ ''rst '' else flags_str);
          flags_str = (if syn self then flags_str @ ''syn '' else flags_str);
          flags_str = (if fin self then flags_str @ ''fin'' else flags_str)
      in strip flags_str)"

subsection \<open>The string form as the specification words it\<close>

text \<open>
  Section 3 of the specification: the set flags, lower-case, space-separated, in the
  declaration order NS, CWR, ECE, URG, ACK, PSH, RST, SYN, FIN.
\<close>

fun join_spaces :: "string list \<Rightarrow> string" where
  "join_spaces [] = ''''"
| "join_spaces [w] = w"
| "join_spaces (w # ws) = w @ '' '' @ join_spaces ws"

definition flag_names :: "(int \<times> string) list" where
  "flag_names = [(NS, ''ns''), (CWR, ''cwr''), (ECE, ''ece''), (URG, ''urg''), (ACK, ''ack''),
                 (PSH, ''psh''), (RST, ''rst''), (SYN, ''syn''), (FIN, ''fin'')]"

definition set_flag_names :: "tcp_control_bits \<Rightarrow> string list" where
  "set_flag_names x = map snd (filter (\<lambda>p. is_flag_set x (fst p)) flag_names)"


text \<open>
  For the proofs: the string the code accumulates, every name followed by a space, and
  the strings that hold a non-empty word free of whitespace.
\<close>

definition acc_words :: "string list \<Rightarrow> string" where
  "acc_words ws = concat (map (\<lambda>w. w @ '' '') ws)"

definition is_word :: "string \<Rightarrow> bool" where
  "is_word w = (w \<noteq> [] \<and> list_all (\<lambda>c. \<not> isspace c) w)"

section \<open>\<open>struct\<close>: packing and unpacking big-endian fields\<close>

text \<open>
  \<open>struct.pack\<close> raises \<open>struct.error\<close> when a value does not fit its format: \<open>B\<close> is one
  unsigned byte, \<open>H\<close> two, \<open>I\<close> four, all big-endian under \<open>!\<close>. \<open>4s\<close> takes a byte
  string, cut or padded with zero bytes to four. \<open>pack_all\<close> joins the fields in order and
  fails with the first failure.
\<close>

fun pack_all :: "(error + byte list) list \<Rightarrow> error + byte list" where
  "pack_all [] = Inr []"
| "pack_all (Inl e # rest) = Inl e"
| "pack_all (Inr bs # rest) = (case pack_all rest of Inl e \<Rightarrow> Inl e | Inr cs \<Rightarrow> Inr (bs @ cs))"

definition pack_B :: "int \<Rightarrow> error + byte list" where
  "pack_B v = (if 0 \<le> v \<and> v \<le> 0xff then Inr [word_of_int v] else Inl StructError)"

definition pack_H :: "int \<Rightarrow> error + byte list" where
  "pack_H v =
     (if 0 \<le> v \<and> v \<le> 0xffff then Inr [word_of_int (drop_bit 8 v), word_of_int v]
      else Inl StructError)"

definition pack_I :: "int \<Rightarrow> error + byte list" where
  "pack_I v =
     (if 0 \<le> v \<and> v \<le> 0xffffffff
      then Inr [word_of_int (drop_bit 24 v), word_of_int (drop_bit 16 v),
                word_of_int (drop_bit 8 v), word_of_int v]
      else Inl StructError)"

definition pack_4s :: "byte list \<Rightarrow> byte list" where
  "pack_4s bs = take 4 (bs @ replicate 4 0)"

text \<open>\<open>int.to_bytes(2, byteorder="big")\<close>, which raises \<open>OverflowError\<close> out of range.\<close>

definition int_to_bytes2 :: "int \<Rightarrow> error + byte list" where
  "int_to_bytes2 v =
     (if 0 \<le> v \<and> v \<le> 0xffff then Inr [word_of_int (drop_bit 8 v), word_of_int v]
      else Inl OverflowError)"

text \<open>
  \<open>struct.unpack\<close> reads the big-endian fields back and raises \<open>struct.error\<close> when the
  buffer does not have the size of the format, 20 bytes for \<open>!HHIIHHHH\<close>.
\<close>

definition be_int :: "byte list \<Rightarrow> int" where
  "be_int bs = foldl (\<lambda>a b. a * 256 + uint b) 0 bs"

definition slice :: "nat \<Rightarrow> nat \<Rightarrow> 'a list \<Rightarrow> 'a list" where
  "slice i j xs = take (j - i) (drop i xs)"

definition pack_tcp_header ::
  "int \<Rightarrow> int \<Rightarrow> int \<Rightarrow> int \<Rightarrow> int \<Rightarrow> int \<Rightarrow> int \<Rightarrow> int \<Rightarrow> error + byte list" where
  "pack_tcp_header f0 f1 f2 f3 f4 f5 f6 f7 =
     pack_all [pack_H f0, pack_H f1, pack_I f2, pack_I f3, pack_H f4, pack_H f5, pack_H f6, pack_H f7]"

definition unpack_tcp_header ::
  "byte list \<Rightarrow> error + (int \<times> int \<times> int \<times> int \<times> int \<times> int \<times> int \<times> int)" where
  "unpack_tcp_header bs =
     (if length bs \<noteq> 20 then Inl StructError
      else Inr (be_int (slice 0 2 bs), be_int (slice 2 4 bs), be_int (slice 4 8 bs),
                be_int (slice 8 12 bs), be_int (slice 12 14 bs), be_int (slice 14 16 bs),
                be_int (slice 16 18 bs), be_int (slice 18 20 bs)))"

text \<open>
  Python's slices \<open>xs[:k]\<close> and \<open>xs[k:]\<close>: a negative \<open>k\<close> counts from the end, and an
  index beyond either end is clipped.
\<close>

definition slice_to :: "int \<Rightarrow> 'a list \<Rightarrow> 'a list" where
  "slice_to k xs = (if 0 \<le> k then take (nat k) xs else take (length xs - nat (- k)) xs)"

definition slice_from :: "int \<Rightarrow> 'a list \<Rightarrow> 'a list" where
  "slice_from k xs = (if 0 \<le> k then drop (nat k) xs else drop (length xs - nat (- k)) xs)"

section \<open>The TCP options codec\<close>

text \<open>
  Modelled from the spec: the class \<open>TcpOptions\<close> (\<open>tcp_options.py\<close>, in both packages) is
  not among the sources. Sections 3 and 4.3 of the specification: an option is
  \<open>EndOfList\<close> (one byte, 0), \<open>NoOp\<close> (one byte, 1) or \<open>Sized\<close>, a kind with 32-bit
  values; decoding keeps the options it does not interpret as the kind with the raw value
  bytes (\<open>Opaque\<close>). The specification names one kind with a fixed number of words,
  Timestamps (kind 8, two words).

  Encoding emits the tag for \<open>EndOfList\<close> and \<open>NoOp\<close>, and tag, length (2 plus the number
  of value bytes) and the big-endian values for a sized option, then appends \<open>NoOp\<close> bytes
  until the length is a multiple of 4. (The length byte holds 8 bits; an option with more
  than 253 value bytes is not well-formed and its length wraps.)

  Decoding scans the bytes: 0 is \<open>EndOfList\<close> and stops; 1 is \<open>NoOp\<close>; any other tag is
  followed by a length byte, which must be at least 2 and must not reach past the end
  (\<open>MalformedOptions\<close> otherwise), and by the value bytes. Equality of \<open>TcpOptions\<close> is
  equality of the option sequences.
\<close>

datatype tcp_option = EndOfList | NoOp | Sized byte "32 word list" | Opaque byte "byte list"

definition END_OF_OPTION_LIST :: byte where "END_OF_OPTION_LIST = 0"
definition NOP :: byte where "NOP = 1"
definition TIMESTAMPS :: byte where "TIMESTAMPS = 8"

definition be32_bytes :: "32 word \<Rightarrow> byte list" where
  "be32_bytes w = [ucast (drop_bit 24 w), ucast (drop_bit 16 w), ucast (drop_bit 8 w), ucast w]"

definition be32_word :: "byte list \<Rightarrow> 32 word" where
  "be32_word bs = foldl (\<lambda>a b. push_bit 8 a OR ucast b) 0 bs"

fun option_to_bytes :: "tcp_option \<Rightarrow> byte list" where
  "option_to_bytes EndOfList = [END_OF_OPTION_LIST]"
| "option_to_bytes NoOp = [NOP]"
| "option_to_bytes (Sized kind vals) =
     kind # of_nat (2 + 4 * length vals) # concat (map be32_bytes vals)"
| "option_to_bytes (Opaque kind raw) = kind # of_nat (2 + length raw) # raw"

definition options_to_bytes :: "tcp_option list \<Rightarrow> byte list" where
  "options_to_bytes opts =
     (let raw = concat (map option_to_bytes opts)
      in raw @ replicate ((4 - length raw mod 4) mod 4) NOP)"

fun words_of :: "byte list \<Rightarrow> 32 word list" where
  "words_of (b0 # b1 # b2 # b3 # rest) = be32_word [b0, b1, b2, b3] # words_of rest"
| "words_of _ = []"

function options_from_bytes :: "byte list \<Rightarrow> error + tcp_option list" where
  "options_from_bytes [] = Inr []"
| "options_from_bytes (tag # rest) =
     (if tag = END_OF_OPTION_LIST then Inr [EndOfList]
      else if tag = NOP then
        (case options_from_bytes rest of Inl e \<Rightarrow> Inl e | Inr opts \<Rightarrow> Inr (NoOp # opts))
      else
        (case rest of
           [] \<Rightarrow> Inl MalformedOptions
         | len # more \<Rightarrow>
             if unat len < 2 \<or> length more < unat len - 2 then Inl MalformedOptions
             else
               (let val = take (unat len - 2) more;
                    opt = (if tag = TIMESTAMPS \<and> length val = 8 then Sized tag (words_of val)
                           else Opaque tag val)
                in case options_from_bytes (drop (unat len - 2) more) of
                     Inl e \<Rightarrow> Inl e
                   | Inr opts \<Rightarrow> Inr (opt # opts))))"
  by pat_completeness auto
termination
  by (relation "measure length") auto

section \<open>Packets\<close>

text \<open>
  Modelled from the spec: the class \<open>IpPacket\<close> (\<open>port_scanner/layers/ip/ip_packet.py\<close>) is
  not among the sources. Section 6 of the specification: the lower-layer packet exposes
  its source address bytes, its destination address bytes and its protocol number; the
  source reads them as \<open>source_addr_raw\<close>, \<open>dest_addr_raw\<close> and \<open>protocol\<close>.
\<close>

record ip_packet =
  source_addr_raw :: "byte list"
  dest_addr_raw :: "byte list"
  protocol :: int

text \<open>
  Modelled from the spec: the base class \<open>Packet\<close> (\<open>port_scanner/layers/packet.py\<close>) is not
  among the sources. Section 6 and the design notes of the specification: it links a
  packet to the packet below (\<open>underlying_packet\<close>) and to the packet above
  (\<open>upper_layer\<close>), both unset after construction. A reference is unset, an \<open>IpPacket\<close>, or
  a packet of another class, of which the model keeps a value of type \<open>'p\<close>.

  The two classes \<open>TcpPacket\<close> have the same fields. \<open>flags\<close> is a \<open>TcpControlBits\<close>, whose
  integer is \<open>flags_int\<close>.
\<close>

datatype 'p packet_ref = NoPacket | IpPacketRef ip_packet | OtherPacketRef 'p

record 'p tcp_packet =
  source_port :: int
  dest_port :: int
  sequence_number :: int
  ack_number :: int
  flags :: tcp_control_bits
  win_size :: int
  urg_pointer :: int
  options :: "tcp_option list"
  payload :: "byte list"
  underlying_packet :: "'p packet_ref"
  upper_layer :: "'p packet_ref"

section \<open>The helper modules \<open>TcpUtils\<close> and \<open>TransportLayerUtils\<close>\<close>

text \<open>
  Modelled from the spec: \<open>TcpUtils\<close> (\<open>port_scanner/layers/tcp/tcp_utils.py\<close>) and
  \<open>TransportLayerUtils\<close> (\<open>port_scanner/layers/transport/transport_layer_utils.py\<close>) are not
  among the sources. The specification describes one component for both:
  \<^item> \<open>TCP_HEADER_LENGTH\<close> is the 5 words and \<open>TCP_HEADER_LENGTH_BYTES\<close> the 20 bytes of the
    fixed header (section 4.5, steps 2 and 4);
  \<^item> \<open>validate_port_num\<close> returns a port in the range 0 to 65535 and fails with
    \<open>InvalidArgument\<close> otherwise (sections 4.5 and 7);
  \<^item> \<open>validate_packet_length\<close> returns the packet when its length satisfies the minimum
    and maximum of the medium and fails with \<open>LengthConstraintViolation\<close> otherwise
    (sections 6 and 7); the two bounds are not given and are a parameter;
  \<^item> \<open>calc_tcp_checksum\<close> is the checksum engine over the pseudo-header, the header and
    the rest, in this order (section 4.5, step 6);
  \<^item> \<open>TransportLayerUtils.get_pseudo_header\<close> builds the pseudo-header of section 4.5,
    step 5, as \<open>TcpPacket.__get_pseudo_header\<close> of the other package does.
\<close>

definition TCP_HEADER_LENGTH :: nat where "TCP_HEADER_LENGTH = 5"
definition TCP_HEADER_LENGTH_BYTES :: nat where "TCP_HEADER_LENGTH_BYTES = 20"

record length_constraint =
  min_length :: nat
  max_length :: nat

definition validate_port_num :: "int \<Rightarrow> error + int" where
  "validate_port_num port_num =
     (if 0 \<le> port_num \<and> port_num \<le> 65535 then Inr port_num else Inl InvalidArgument)"

definition validate_packet_length :: "length_constraint \<Rightarrow> byte list \<Rightarrow> error + byte list" where
  "validate_packet_length lc packet =
     (if length packet < min_length lc \<or> max_length lc < length packet
      then Inl LengthConstraintViolation else Inr packet)"

definition calc_tcp_checksum :: "byte list \<Rightarrow> byte list \<Rightarrow> byte list \<Rightarrow> error + int" where
  "calc_tcp_checksum pseudo_header header rest = calc_checksum (pseudo_header @ header @ rest)"

section \<open>\<open>port_scanner/layers/tcp/tcp_packet.py\<close>\<close>

text \<open>\<open>TcpPacket.__init__\<close>: the two ports are validated, the other fields are stored.\<close>

definition TcpPacket_init ::
  "int \<Rightarrow> int \<Rightarrow> int \<Rightarrow> int \<Rightarrow> tcp_control_bits \<Rightarrow> int \<Rightarrow> int \<Rightarrow> tcp_option list \<Rightarrow> byte list
   \<Rightarrow> error + 'p tcp_packet" where
  "TcpPacket_init source_port' dest_port' sequence_number' ack_number' flags' win_size'
       urg_pointer' options' payload' =
     (case validate_port_num source_port' of
        Inl e \<Rightarrow> Inl e
      | Inr sp \<Rightarrow>
          (case validate_port_num dest_port' of
             Inl e \<Rightarrow> Inl e
           | Inr dp \<Rightarrow>
               Inr \<lparr>source_port = sp, dest_port = dp, sequence_number = sequence_number',
                    ack_number = ack_number', flags = flags', win_size = win_size',
                    urg_pointer = urg_pointer', options = options', payload = payload',
                    underlying_packet = NoPacket, upper_layer = NoPacket\<rparr>))"

text \<open>\<open>TcpPacket.__get_pseudo_header\<close>, with the format \<open>!4s4sBBH\<close>.\<close>

definition get_pseudo_header :: "'p tcp_packet \<Rightarrow> int \<Rightarrow> error + byte list" where
  "get_pseudo_header self segment_len =
     (case underlying_packet self of
        IpPacketRef ip_packet \<Rightarrow>
          pack_all [Inr (pack_4s (source_addr_raw ip_packet)),
                    Inr (pack_4s (dest_addr_raw ip_packet)),
                    pack_B 0, pack_B (protocol ip_packet), pack_H segment_len]
      | _ \<Rightarrow> Inl UnderlyingNotIpPacket)"

text \<open>\<open>TcpPacket.to_bytes\<close>.\<close>

definition to_bytes :: "length_constraint \<Rightarrow> 'p tcp_packet \<Rightarrow> error + byte list" where
  "to_bytes lc self =
     (let options_bytes = options_to_bytes (options self) in
      if length options_bytes mod 4 \<noteq> 0 then Inl AssertionError
      else
        let data_offset = int TCP_HEADER_LENGTH + int (length options_bytes div 4);
            data_offset_flags = push_bit 12 data_offset OR flags_int (flags self)
        in case pack_tcp_header (source_port self) (dest_port self) (sequence_number self)
                  (ack_number self) data_offset_flags (win_size self) 0 (urg_pointer self) of
             Inl e \<Rightarrow> Inl e
           | Inr header_buffer \<Rightarrow>
         (case get_pseudo_header self (data_offset * 4 + int (length (payload self))) of
             Inl e \<Rightarrow> Inl e
           | Inr pseudo_header \<Rightarrow>
         (case calc_tcp_checksum pseudo_header header_buffer (options_bytes @ payload self) of
             Inl e \<Rightarrow> Inl e
           | Inr checksum \<Rightarrow>
         (case int_to_bytes2 checksum of
             Inl e \<Rightarrow> Inl e
           | Inr checksum_bytes \<Rightarrow>
               (let header_buffer = header_buffer[16 := checksum_bytes ! 0, 17 := checksum_bytes ! 1]
                in validate_packet_length lc (header_buffer @ options_bytes @ payload self))))))"

text \<open>\<open>TcpPacket.from_bytes\<close>.\<close>

definition from_bytes :: "byte list \<Rightarrow> error + 'p tcp_packet" where
  "from_bytes packet_bytes =
     (let header_bytes = take TCP_HEADER_LENGTH_BYTES packet_bytes;
          payload_and_options = drop TCP_HEADER_LENGTH_BYTES packet_bytes
      in case unpack_tcp_header header_bytes of
           Inl e \<Rightarrow> Inl e
         | Inr (source_port', dest_port', seq_num, ack_num, data_offset_flags, win_size',
                checksum, urg_pointer') \<Rightarrow>
             (let data_offset = drop_bit 12 data_offset_flags;
                  reserved_bits = drop_bit 9 data_offset_flags AND 7
              in if reserved_bits \<noteq> 0 then Inl ReservedBitsNotZero
                 else
                   let flags' = from_int (data_offset_flags AND 511);
                       options_len = (data_offset - int TCP_HEADER_LENGTH) * 4
                   in case options_from_bytes (slice_to options_len payload_and_options) of
                        Inl e \<Rightarrow> Inl e
                      | Inr options' \<Rightarrow>
                          (let payload' = slice_from options_len payload_and_options
                           in TcpPacket_init source_port' dest_port' seq_num ack_num flags'
                                win_size' urg_pointer' options' payload')))"

text \<open>
  Python values compared by \<open>__eq__\<close>: an instance of \<open>TcpControlBits\<close>, of the
  \<open>TcpPacket\<close> of either package, or any other object. A method that ends without
  \<open>return\<close> gives \<open>None\<close>: the result of \<open>__eq__\<close> is \<open>Some\<close> of a Boolean, or \<open>None\<close>.
  \<open>a and b\<close> is \<open>a\<close> when \<open>a\<close> is falsy (\<open>False\<close> or \<open>None\<close>), else \<open>b\<close>.
\<close>

datatype 'p py_object =
    TcpControlBitsObj tcp_control_bits
  | TcpPacketObj "'p tcp_packet"
  | TransportTcpPacketObj "'p tcp_packet"
  | OtherObj

fun isinstance_TcpControlBits :: "'p py_object \<Rightarrow> bool" where
  "isinstance_TcpControlBits (TcpControlBitsObj b) = True"
| "isinstance_TcpControlBits other = False"

fun isinstance_TcpPacket :: "'p py_object \<Rightarrow> bool" where
  "isinstance_TcpPacket (TcpPacketObj p) = True"
| "isinstance_TcpPacket other = False"

fun isinstance_transport_TcpPacket :: "'p py_object \<Rightarrow> bool" where
  "isinstance_transport_TcpPacket (TransportTcpPacketObj p) = True"
| "isinstance_transport_TcpPacket other = False"

fun py_and :: "bool option list \<Rightarrow> bool option" where
  "py_and [] = Some True"
| "py_and [a] = a"
| "py_and (a # rest) = (if a = Some True then py_and rest else a)"

text \<open>\<open>TcpControlBits.__eq__\<close>.\<close>

fun TcpControlBits_eq :: "tcp_control_bits \<Rightarrow> 'p py_object \<Rightarrow> bool option" where
  "TcpControlBits_eq self (TcpControlBitsObj other) = Some (flags_int self = flags_int other)"
| "TcpControlBits_eq self other = None"

text \<open>\<open>TcpPacket.__eq__\<close>.\<close>

fun TcpPacket_eq :: "'p tcp_packet \<Rightarrow> 'p py_object \<Rightarrow> bool option" where
  "TcpPacket_eq self (TcpPacketObj other) =
     py_and [Some (dest_port self = dest_port other),
             Some (source_port self = source_port other),
             Some (payload self = payload other),
             Some (sequence_number self = sequence_number other),
             Some (ack_number self = ack_number other),
             TcpControlBits_eq (flags self) (TcpControlBitsObj (flags other) :: 'p py_object),
             Some (win_size self = win_size other),
             Some (urg_pointer self = urg_pointer other),
             Some (options self = options other),
             Some (underlying_packet self = underlying_packet other)]"
| "TcpPacket_eq self other = None"

section \<open>\<open>port_scanner/layers/transport/tcp/tcp_packet.py\<close>\<close>

text \<open>The second \<open>TcpPacket\<close>: \<open>__init__\<close>, \<open>to_bytes\<close>, \<open>from_bytes\<close> and \<open>__eq__\<close>.\<close>

definition transport_TcpPacket_init ::
  "int \<Rightarrow> int \<Rightarrow> int \<Rightarrow> int \<Rightarrow> tcp_control_bits \<Rightarrow> int \<Rightarrow> int \<Rightarrow> tcp_option list \<Rightarrow> byte list
   \<Rightarrow> error + 'p tcp_packet" where
  "transport_TcpPacket_init source_port' dest_port' sequence_number' ack_number' flags'
       win_size' urg_pointer' options' payload' =
     (case validate_port_num source_port' of
        Inl e \<Rightarrow> Inl e
      | Inr sp \<Rightarrow>
          (case validate_port_num dest_port' of
             Inl e \<Rightarrow> Inl e
           | Inr dp \<Rightarrow>
               Inr \<lparr>source_port = sp, dest_port = dp, sequence_number = sequence_number',
                    ack_number = ack_number', flags = flags', win_size = win_size',
                    urg_pointer = urg_pointer', options = options', payload = payload',
                    underlying_packet = NoPacket, upper_layer = NoPacket\<rparr>))"

definition transport_get_pseudo_header :: "'p tcp_packet \<Rightarrow> int \<Rightarrow> error + byte list" where
  "transport_get_pseudo_header packet segment_len =
     (case underlying_packet packet of
        IpPacketRef ip_packet \<Rightarrow>
          pack_all [Inr (pack_4s (source_addr_raw ip_packet)),
                    Inr (pack_4s (dest_addr_raw ip_packet)),
                    pack_B 0, pack_B (protocol ip_packet), pack_H segment_len]
      | _ \<Rightarrow> Inl UnderlyingNotIpPacket)"

definition transport_to_bytes :: "length_constraint \<Rightarrow> 'p tcp_packet \<Rightarrow> error + byte list" where
  "transport_to_bytes lc self =
     (let options_bytes = options_to_bytes (options self) in
      if length options_bytes mod 4 \<noteq> 0 then Inl AssertionError
      else
        let data_offset = int TCP_HEADER_LENGTH + int (length options_bytes div 4);
            data_offset_flags = push_bit 12 data_offset OR flags_int (flags self)
        in case pack_tcp_header (source_port self) (dest_port self) (sequence_number self)
                  (ack_number self) data_offset_flags (win_size self) 0 (urg_pointer self) of
             Inl e \<Rightarrow> Inl e
           | Inr header_buffer \<Rightarrow>
         (case transport_get_pseudo_header self
                 (data_offset * 4 + int (length (payload self))) of
             Inl e \<Rightarrow> Inl e
           | Inr pseudo_header \<Rightarrow>
         (case calc_checksum (pseudo_header @ header_buffer @ options_bytes @ payload self) of
             Inl e \<Rightarrow> Inl e
           | Inr checksum \<Rightarrow>
         (case int_to_bytes2 checksum of
             Inl e \<Rightarrow> Inl e
           | Inr checksum_bytes \<Rightarrow>
               (let header_buffer = header_buffer[16 := checksum_bytes ! 0, 17 := checksum_bytes ! 1]
                in validate_packet_length lc (header_buffer @ options_bytes @ payload self))))))"

definition transport_from_bytes :: "byte list \<Rightarrow> error + 'p tcp_packet" where
  "transport_from_bytes packet_bytes =
     (let header_bytes = take TCP_HEADER_LENGTH_BYTES packet_bytes;
          payload_and_options = drop TCP_HEADER_LENGTH_BYTES packet_bytes
      in case unpack_tcp_header header_bytes of
           Inl e \<Rightarrow> Inl e
         | Inr (source_port', dest_port', seq_num, ack_num, data_offset_flags, win_size',
                checksum, urg_pointer') \<Rightarrow>
             (let data_offset = drop_bit 12 data_offset_flags;
                  reserved_bits = drop_bit 9 data_offset_flags AND 7
              in if reserved_bits \<noteq> 0 then Inl ReservedBitsNotZero
                 else
                   let flags' = from_int (data_offset_flags AND 511);
                       options_len = (data_offset - int TCP_HEADER_LENGTH) * 4
                   in case options_from_bytes (slice_to options_len payload_and_options) of
                        Inl e \<Rightarrow> Inl e
                      | Inr options' \<Rightarrow>
                          (let payload' = slice_from options_len payload_and_options
                           in transport_TcpPacket_init source_port' dest_port' seq_num ack_num
                                flags' win_size' urg_pointer' options' payload')))"

fun transport_TcpPacket_eq :: "'p tcp_packet \<Rightarrow> 'p py_object \<Rightarrow> bool option" where
  "transport_TcpPacket_eq self (TransportTcpPacketObj other) =
     py_and [Some (dest_port self = dest_port other),
             Some (source_port self = source_port other),
             Some (upper_layer self = upper_layer other),
             Some (sequence_number self = sequence_number other),
             Some (ack_number self = ack_number other),
             TcpControlBits_eq (flags self) (TcpControlBitsObj (flags other) :: 'p py_object),
             Some (win_size self = win_size other),
             Some (urg_pointer self = urg_pointer other),
             Some (options self = options other),
             Some (payload self = payload other)]"
| "transport_TcpPacket_eq self other = None"

section \<open>The two packet classes over the helper modules of their packages\<close>

text \<open>
  The two files import \<open>TcpUtils\<close>, \<open>TcpOptions\<close> and \<open>TcpControlBits\<close> each from its own
  package, and the second one \<open>TransportLayerUtils\<close>; none of these modules is among the
  sources. To compare the two files without deciding what the absent modules do, the
  functions of this section take them as parameters: a record of the helpers that both files
  call under the same name, the checksum helper \<open>TcpUtils.calc_tcp_checksum\<close> of the first
  file, and the pseudo-header helper \<open>TransportLayerUtils.get_pseudo_header\<close> of the second.
  The bodies are those of \<open>TcpPacket_init\<close>, \<open>to_bytes\<close>, \<open>from_bytes\<close> and of their
  \<open>transport\<close> counterparts, line by line; \<open>spec_helpers\<close> gives the helpers as the
  specification describes them.
\<close>

record helper_modules =
  validate_port_num_of :: "int \<Rightarrow> error + int"
  validate_packet_length_of :: "byte list \<Rightarrow> error + byte list"
  header_length_of :: nat
  header_length_bytes_of :: nat
  options_to_bytes_of :: "tcp_option list \<Rightarrow> byte list"
  options_from_bytes_of :: "byte list \<Rightarrow> error + tcp_option list"
  from_int_of :: "int \<Rightarrow> tcp_control_bits"

definition spec_helpers :: "length_constraint \<Rightarrow> helper_modules" where
  "spec_helpers lc =
     \<lparr>validate_port_num_of = validate_port_num,
      validate_packet_length_of = validate_packet_length lc,
      header_length_of = TCP_HEADER_LENGTH,
      header_length_bytes_of = TCP_HEADER_LENGTH_BYTES,
      options_to_bytes_of = options_to_bytes,
      options_from_bytes_of = options_from_bytes,
      from_int_of = from_int\<rparr>"

text \<open>\<open>port_scanner/layers/tcp/tcp_packet.py\<close> over its helpers.\<close>

definition TcpPacket_init_with ::
  "helper_modules \<Rightarrow> int \<Rightarrow> int \<Rightarrow> int \<Rightarrow> int \<Rightarrow> tcp_control_bits \<Rightarrow> int \<Rightarrow> int
   \<Rightarrow> tcp_option list \<Rightarrow> byte list \<Rightarrow> error + 'p tcp_packet" where
  "TcpPacket_init_with tcp_utils source_port' dest_port' sequence_number' ack_number' flags'
       win_size' urg_pointer' options' payload' =
     (case validate_port_num_of tcp_utils source_port' of
        Inl e \<Rightarrow> Inl e
      | Inr sp \<Rightarrow>
          (case validate_port_num_of tcp_utils dest_port' of
             Inl e \<Rightarrow> Inl e
           | Inr dp \<Rightarrow>
               Inr \<lparr>source_port = sp, dest_port = dp, sequence_number = sequence_number',
                    ack_number = ack_number', flags = flags', win_size = win_size',
                    urg_pointer = urg_pointer', options = options', payload = payload',
                    underlying_packet = NoPacket, upper_layer = NoPacket\<rparr>))"

definition to_bytes_with ::
  "helper_modules \<Rightarrow> (byte list \<Rightarrow> byte list \<Rightarrow> byte list \<Rightarrow> error + int) \<Rightarrow> 'p tcp_packet
   \<Rightarrow> error + byte list" where
  "to_bytes_with tcp_utils calc_tcp_checksum_of self =
     (let options_bytes = options_to_bytes_of tcp_utils (options self) in
      if length options_bytes mod 4 \<noteq> 0 then Inl AssertionError
      else
        let data_offset = int (header_length_of tcp_utils) + int (length options_bytes div 4);
            data_offset_flags = push_bit 12 data_offset OR flags_int (flags self)
        in case pack_tcp_header (source_port self) (dest_port self) (sequence_number self)
                  (ack_number self) data_offset_flags (win_size self) 0 (urg_pointer self) of
             Inl e \<Rightarrow> Inl e
           | Inr header_buffer \<Rightarrow>
         (case get_pseudo_header self (data_offset * 4 + int (length (payload self))) of
             Inl e \<Rightarrow> Inl e
           | Inr pseudo_header \<Rightarrow>
         (case calc_tcp_checksum_of pseudo_header header_buffer
                 (options_bytes @ payload self) of
             Inl e \<Rightarrow> Inl e
           | Inr checksum \<Rightarrow>
         (case int_to_bytes2 checksum of
             Inl e \<Rightarrow> Inl e
           | Inr checksum_bytes \<Rightarrow>
               (let header_buffer = header_buffer[16 := checksum_bytes ! 0, 17 := checksum_bytes ! 1]
                in validate_packet_length_of tcp_utils
                     (header_buffer @ options_bytes @ payload self))))))"

definition from_bytes_with :: "helper_modules \<Rightarrow> byte list \<Rightarrow> error + 'p tcp_packet" where
  "from_bytes_with tcp_utils packet_bytes =
     (let header_bytes = take (header_length_bytes_of tcp_utils) packet_bytes;
          payload_and_options = drop (header_length_bytes_of tcp_utils) packet_bytes
      in case unpack_tcp_header header_bytes of
           Inl e \<Rightarrow> Inl e
         | Inr (source_port', dest_port', seq_num, ack_num, data_offset_flags, win_size',
                checksum, urg_pointer') \<Rightarrow>
             (let data_offset = drop_bit 12 data_offset_flags;
                  reserved_bits = drop_bit 9 data_offset_flags AND 7
              in if reserved_bits \<noteq> 0 then Inl ReservedBitsNotZero
                 else
                   let flags' = from_int_of tcp_utils (data_offset_flags AND 511);
                       options_len = (data_offset - int (header_length_of tcp_utils)) * 4
                   in case options_from_bytes_of tcp_utils
                             (slice_to options_len payload_and_options) of
                        Inl e \<Rightarrow> Inl e
                      | Inr options' \<Rightarrow>
                          (let payload' = slice_from options_len payload_and_options
                           in TcpPacket_init_with tcp_utils source_port' dest_port' seq_num
                                ack_num flags' win_size' urg_pointer' options' payload')))"

text \<open>\<open>port_scanner/layers/transport/tcp/tcp_packet.py\<close> over its helpers.\<close>

definition transport_TcpPacket_init_with ::
  "helper_modules \<Rightarrow> int \<Rightarrow> int \<Rightarrow> int \<Rightarrow> int \<Rightarrow> tcp_control_bits \<Rightarrow> int \<Rightarrow> int
   \<Rightarrow> tcp_option list \<Rightarrow> byte list \<Rightarrow> error + 'p tcp_packet" where
  "transport_TcpPacket_init_with transport_utils source_port' dest_port' sequence_number'
       ack_number' flags' win_size' urg_pointer' options' payload' =
     (case validate_port_num_of transport_utils source_port' of
        Inl e \<Rightarrow> Inl e
      | Inr sp \<Rightarrow>
          (case validate_port_num_of transport_utils dest_port' of
             Inl e \<Rightarrow> Inl e
           | Inr dp \<Rightarrow>
               Inr \<lparr>source_port = sp, dest_port = dp, sequence_number = sequence_number',
                    ack_number = ack_number', flags = flags', win_size = win_size',
                    urg_pointer = urg_pointer', options = options', payload = payload',
                    underlying_packet = NoPacket, upper_layer = NoPacket\<rparr>))"

definition transport_to_bytes_with ::
  "helper_modules \<Rightarrow> ('p tcp_packet \<Rightarrow> int \<Rightarrow> error + byte list) \<Rightarrow> 'p tcp_packet
   \<Rightarrow> error + byte list" where
  "transport_to_bytes_with transport_utils get_pseudo_header_of self =
     (let options_bytes = options_to_bytes_of transport_utils (options self) in
      if length options_bytes mod 4 \<noteq> 0 then Inl AssertionError
      else
        let data_offset = int (header_length_of transport_utils)
              + int (length options_bytes div 4);
            data_offset_flags = push_bit 12 data_offset OR flags_int (flags self)
        in case pack_tcp_header (source_port self) (dest_port self) (sequence_number self)
                  (ack_number self) data_offset_flags (win_size self) 0 (urg_pointer self) of
             Inl e \<Rightarrow> Inl e
           | Inr header_buffer \<Rightarrow>
         (case get_pseudo_header_of self (data_offset * 4 + int (length (payload self))) of
             Inl e \<Rightarrow> Inl e
           | Inr pseudo_header \<Rightarrow>
         (case calc_checksum (pseudo_header @ header_buffer @ options_bytes @ payload self) of
             Inl e \<Rightarrow> Inl e
           | Inr checksum \<Rightarrow>
         (case int_to_bytes2 checksum of
             Inl e \<Rightarrow> Inl e
           | Inr checksum_bytes \<Rightarrow>
               (let header_buffer = header_buffer[16 := checksum_bytes ! 0, 17 := checksum_bytes ! 1]
                in validate_packet_length_of transport_utils
                     (header_buffer @ options_bytes @ payload self))))))"

definition transport_from_bytes_with ::
  "helper_modules \<Rightarrow> byte list \<Rightarrow> error + 'p tcp_packet" where
  "transport_from_bytes_with transport_utils packet_bytes =
     (let header_bytes = take (header_length_bytes_of transport_utils) packet_bytes;
          payload_and_options = drop (header_length_bytes_of transport_utils) packet_bytes
      in case unpack_tcp_header header_bytes of
           Inl e \<Rightarrow> Inl e
         | Inr (source_port', dest_port', seq_num, ack_num, data_offset_flags, win_size',
                checksum, urg_pointer') \<Rightarrow>
             (let data_offset = drop_bit 12 data_offset_flags;
                  reserved_bits = drop_bit 9 data_offset_flags AND 7
              in if reserved_bits \<noteq> 0 then Inl ReservedBitsNotZero
                 else
                   let flags' = from_int_of transport_utils (data_offset_flags AND 511);
                       options_len =
                         (data_offset - int (header_length_of transport_utils)) * 4
                   in case options_from_bytes_of transport_utils
                             (slice_to options_len payload_and_options) of
                        Inl e \<Rightarrow> Inl e
                      | Inr options' \<Rightarrow>
                          (let payload' = slice_from options_len payload_and_options
                           in transport_TcpPacket_init_with transport_utils source_port'
                                dest_port' seq_num ack_num flags' win_size' urg_pointer'
                                options' payload')))"


section \<open>The scenario of \<open>test_tcp_packet.py\<close>\<close>

text \<open>
  The packet of \<open>TestTcpPacket.test_to_bytes\<close>, with its underlying IP packet from
  192.168.1.32 to 35.160.240.60 and the protocol number 6 of TCP; the 32 bytes of
  \<open>PACKET_DUMP_1\<close>; and bounds on the length that every TCP segment in an IPv4 packet
  satisfies.
\<close>

definition test_packet :: "unit tcp_packet" where
  "test_packet = \<lparr>source_port = 59700, dest_port = 443, sequence_number = 1407506493,
      ack_number = 3676709599,
      flags = TcpControlBits_init False False False False True False False False False,
      win_size = 501, urg_pointer = 0,
      options = [NoOp, NoOp, Sized TIMESTAMPS [3252488245, 365238493]], payload = [],
      underlying_packet = IpPacketRef \<lparr>source_addr_raw = [192, 168, 1, 32],
         dest_addr_raw = [35, 160, 240, 60], protocol = 6\<rparr>,
      upper_layer = NoPacket\<rparr>"

definition test_bytes :: "byte list" where
  "test_bytes = [0xe9, 0x34, 0x01, 0xbb, 0x53, 0xe4, 0xd8, 0x3d, 0xdb, 0x26, 0x22, 0xdf,
                 0x80, 0x10, 0x01, 0xf5, 0x91, 0x56, 0x00, 0x00, 0x01, 0x01, 0x08, 0x0a,
                 0xc1, 0xdd, 0x08, 0x35, 0x15, 0xc5, 0x18, 0xdd]"

definition test_length_constraint :: length_constraint where
  "test_length_constraint = \<lparr>min_length = 20, max_length = 65535\<rparr>"

text \<open>
  The 16-bit offset/flags field of an input: bytes 12 and 13, big-endian. Bits 9 to 11 are
  the reserved bits, bits 12 to 15 the data offset.
\<close>

definition offset_flags_field :: "byte list \<Rightarrow> int" where
  "offset_flags_field bs = uint (bs ! 12) * 256 + uint (bs ! 13)"

text \<open>
  The packets whose fields fit the header fields they are packed into (section 3 of the
  specification): 16-bit ports, window size and urgent pointer, 32-bit sequence and
  acknowledgment numbers, 9 flag bits.
\<close>

definition valid_tcp_packet :: "'p tcp_packet \<Rightarrow> bool" where
  "valid_tcp_packet p =
     (0 \<le> source_port p \<and> source_port p \<le> 65535
      \<and> 0 \<le> dest_port p \<and> dest_port p \<le> 65535
      \<and> 0 \<le> sequence_number p \<and> sequence_number p \<le> 4294967295
      \<and> 0 \<le> ack_number p \<and> ack_number p \<le> 4294967295
      \<and> 0 \<le> flags_int (flags p) \<and> flags_int (flags p) < 512
      \<and> 0 \<le> win_size p \<and> win_size p \<le> 65535
      \<and> 0 \<le> urg_pointer p \<and> urg_pointer p \<le> 65535)"

text \<open>
  The options that decoding gives back as they were encoded, whatever follows them:
  \<open>NoOp\<close> and Timestamps with its two values. The decodable kinds are these and
  \<open>EndOfList\<close>, at which decoding stops.
\<close>

fun decodable :: "tcp_option \<Rightarrow> bool" where
  "decodable NoOp = True"
| "decodable (Sized kind vals) = (kind = TIMESTAMPS \<and> length vals = 2)"
| "decodable other = False"

definition decodable_kinds :: "tcp_option list \<Rightarrow> bool" where
  "decodable_kinds opts = list_all (\<lambda>opt. opt = EndOfList \<or> decodable opt) opts"

text \<open>
  The number of padding bytes that encoding appends to an option sequence, and the options
  that parsing the encoding of a sequence of decodable kinds returns: the options up to and
  including the first \<open>EndOfList\<close> when there is one, and otherwise all of them, followed by
  one \<open>NoOp\<close> for every padding byte.
\<close>

definition padding_length :: "tcp_option list \<Rightarrow> nat" where
  "padding_length opts = (4 - length (concat (map option_to_bytes opts)) mod 4) mod 4"

definition parsed_options :: "tcp_option list \<Rightarrow> tcp_option list" where
  "parsed_options opts =
     (if EndOfList \<in> set opts then takeWhile (\<lambda>opt. opt \<noteq> EndOfList) opts @ [EndOfList]
      else opts @ replicate (padding_length opts) NoOp)"

section \<open>Theorems\<close>

subsection \<open>The checksum engine\<close>

lemma sum_words_odd: "odd (length bs) \<Longrightarrow> sum_words bs c = Inl IndexError"
  by (induction bs c rule: sum_words.induct) auto

lemma calc_checksum_odd: "odd (length bs) \<Longrightarrow> calc_checksum bs = Inl IndexError"
  by (simp add: calc_checksum_def sum_words_odd)

lemma sum_words_even:
  "even (length bs) \<Longrightarrow> sum_words bs c = Inr (c + int (sum_list (be_words bs)))"
proof (induction bs c rule: sum_words.induct)
  case (3 b0 b1 rest checksum)
  then show ?case
    by (simp add: push_bit_eq_mult algebra_simps)
qed auto

text \<open>
  C3. For an even-length byte sequence the checksum is claimed to be the complement of the
  one's-complement sum with the carry folded back until none remains. The code folds once:
  on the six bytes \<open>ff ff ff ff 00 01\<close> the word sum is \<open>0x1ffff\<close>, one fold leaves
  \<open>0x20000\<close>, whose low 16 bits are zero, and the code returns \<open>0xffff\<close>, while the
  Internet checksum of these bytes is \<open>0xfffe\<close>.
\<close>

theorem calc_checksum_single_fold_diverges:
  "calc_checksum [0xff, 0xff, 0xff, 0xff, 0x00, 0x01] = Inr 0xffff
   \<and> internet_checksum [0xff, 0xff, 0xff, 0xff, 0x00, 0x01] = 0xfffe"
  by (simp add: calc_checksum_def internet_checksum_def fold_carry.simps)

text \<open>
  C4. For an odd-length byte sequence the checksum is claimed to be defined and equal to the
  checksum of the sequence extended by a zero byte. The code reads one byte past the end
  and raises \<open>IndexError\<close>: on the single byte \<open>01\<close> it returns no value, while the
  checksum of \<open>01 00\<close> is \<open>0xfeff\<close>.
\<close>

theorem calc_checksum_odd_length_raises:
  "calc_checksum [0x01] = Inl IndexError \<and> calc_checksum [0x01, 0x00] = Inr 0xfeff"
  by (simp add: calc_checksum_def)

subsection \<open>The control-flag set\<close>

lemmas mask_defs = NS_def CWR_def ECE_def URG_def ACK_def PSH_def RST_def SYN_def FIN_def

lemma dropWhile_hd: "t \<noteq> [] \<Longrightarrow> \<not> P (hd t) \<Longrightarrow> dropWhile P t = t"
  by (cases t) simp_all

lemma strip_trimmed:
  assumes "t \<noteq> []" "\<not> isspace (hd t)" "\<not> isspace (last t)"
  shows "strip t = t" and "strip (t @ '' '') = t"
proof -
  have r: "dropWhile isspace (rev t) = rev t"
    using assms by (intro dropWhile_hd) (simp_all add: hd_rev)
  show "strip t = t"
    using assms r by (simp add: strip_def dropWhile_hd)
  have "dropWhile isspace (t @ '' '') = t @ '' ''"
    using assms by (intro dropWhile_hd) simp_all
  moreover have "isspace CHR '' ''"
    by (simp add: isspace_def)
  ultimately show "strip (t @ '' '') = t"
    using r by (simp add: strip_def)
qed

lemma join_spaces_snoc: "join_spaces (ws @ [w]) = acc_words ws @ w"
  by (induction ws rule: join_spaces.induct) (simp_all add: acc_words_def)

lemma acc_words_snoc: "acc_words (ws @ [w]) = join_spaces (ws @ [w]) @ '' ''"
  by (simp add: join_spaces_snoc) (simp add: acc_words_def)

lemma hd_join_snoc:
  "list_all is_word ws \<Longrightarrow> is_word w \<Longrightarrow>
   join_spaces (ws @ [w]) \<noteq> [] \<and> \<not> isspace (hd (join_spaces (ws @ [w])))
   \<and> \<not> isspace (last (join_spaces (ws @ [w])))"
  unfolding join_spaces_snoc
  by (cases ws) (auto simp: acc_words_def is_word_def list_all_iff hd_append)

lemma strip_words:
  assumes "list_all is_word ws"
  shows "strip (acc_words ws) = join_spaces ws"
proof (cases ws rule: rev_cases)
  case Nil
  then show ?thesis by (simp add: acc_words_def strip_def)
next
  case (snoc vs v)
  then have "list_all is_word vs" "is_word v"
    using assms by simp_all
  from hd_join_snoc [OF this] show ?thesis
    unfolding snoc acc_words_snoc by (simp add: strip_trimmed)
qed

lemma strip_words_last:
  assumes "list_all is_word ws" "is_word w"
  shows "strip (acc_words ws @ w) = join_spaces (ws @ [w])"
  using hd_join_snoc [OF assms] unfolding join_spaces_snoc by (simp add: strip_trimmed)

lemma names_Cons:
  "map snd (filter P ((m, n) # ps)) = (if P (m, n) then [n] else []) @ map snd (filter P ps)"
  by simp

lemma TcpControlBits_str_eq: "TcpControlBits_str x = join_spaces (set_flag_names x)"
proof -
  define s1 where "s1 = (if ns x then '''' @ ''ns '' else '''')"
  define n1 where "n1 = (if ns x then [''ns''] else [])"
  have i1: "s1 = acc_words n1 \<and> list_all is_word n1"
    by (simp add: s1_def n1_def acc_words_def is_word_def isspace_def)
  define s2 where "s2 = (if cwr x then s1 @ ''cwr '' else s1)"
  define n2 where "n2 = n1 @ (if cwr x then [''cwr''] else [])"
  have i2: "s2 = acc_words n2 \<and> list_all is_word n2"
    using i1 by (simp add: s2_def n2_def acc_words_def is_word_def isspace_def)
  define s3 where "s3 = (if ece x then s2 @ ''ece '' else s2)"
  define n3 where "n3 = n2 @ (if ece x then [''ece''] else [])"
  have i3: "s3 = acc_words n3 \<and> list_all is_word n3"
    using i2 by (simp add: s3_def n3_def acc_words_def is_word_def isspace_def)
  define s4 where "s4 = (if urg x then s3 @ ''urg '' else s3)"
  define n4 where "n4 = n3 @ (if urg x then [''urg''] else [])"
  have i4: "s4 = acc_words n4 \<and> list_all is_word n4"
    using i3 by (simp add: s4_def n4_def acc_words_def is_word_def isspace_def)
  define s5 where "s5 = (if ack x then s4 @ ''ack '' else s4)"
  define n5 where "n5 = n4 @ (if ack x then [''ack''] else [])"
  have i5: "s5 = acc_words n5 \<and> list_all is_word n5"
    using i4 by (simp add: s5_def n5_def acc_words_def is_word_def isspace_def)
  define s6 where "s6 = (if psh x then s5 @ ''psh '' else s5)"
  define n6 where "n6 = n5 @ (if psh x then [''psh''] else [])"
  have i6: "s6 = acc_words n6 \<and> list_all is_word n6"
    using i5 by (simp add: s6_def n6_def acc_words_def is_word_def isspace_def)
  define s7 where "s7 = (if rst x then s6 @ ''rst '' else s6)"
  define n7 where "n7 = n6 @ (if rst x then [''rst''] else [])"
  have i7: "s7 = acc_words n7 \<and> list_all is_word n7"
    using i6 by (simp add: s7_def n7_def acc_words_def is_word_def isspace_def)
  define s8 where "s8 = (if syn x then s7 @ ''syn '' else s7)"
  define n8 where "n8 = n7 @ (if syn x then [''syn''] else [])"
  have i8: "s8 = acc_words n8 \<and> list_all is_word n8"
    using i7 by (simp add: s8_def n8_def acc_words_def is_word_def isspace_def)
  have code: "TcpControlBits_str x = strip (if fin x then s8 @ ''fin'' else s8)"
    unfolding TcpControlBits_str_def Let_def s8_def s7_def s6_def s5_def s4_def s3_def s2_def s1_def
    by (rule refl)
  have spec: "set_flag_names x = n8 @ (if fin x then [''fin''] else [])"
    unfolding set_flag_names_def flag_names_def names_Cons
      n8_def n7_def n6_def n5_def n4_def n3_def n2_def n1_def
    by (simp add: ns_def cwr_def ece_def urg_def ack_def psh_def rst_def syn_def fin_def
          split del: if_split)
  have w: "is_word ''fin''"
    by (simp add: is_word_def isspace_def)
  show ?thesis
    unfolding code spec using i8 w by (simp add: strip_words strip_words_last)
qed

lemma strip_join_spaces:
  assumes "list_all is_word ws"
  shows "strip (join_spaces ws) = join_spaces ws"
proof (cases ws rule: rev_cases)
  case Nil
  then show ?thesis by (simp add: strip_def)
next
  case (snoc vs v)
  then have "list_all is_word vs" "is_word v"
    using assms by simp_all
  from hd_join_snoc [OF this] show ?thesis
    unfolding snoc by (simp add: strip_trimmed)
qed

lemma set_flag_names_words: "list_all is_word (set_flag_names x)"
  by (simp add: set_flag_names_def flag_names_def is_word_def isspace_def)

text \<open>
  C9. For every control-flag value, the string form is the names of the set flags,
  lower-case, in the declaration order NS, CWR, ECE, URG, ACK, PSH, RST, SYN, FIN, separated
  by single spaces, with no whitespace at either end (stripping it again changes nothing);
  the flag set with ACK and SYN renders as \<open>ack syn\<close>.
\<close>

theorem TcpControlBits_str_declaration_order:
  "TcpControlBits_str x = join_spaces (set_flag_names x)
   \<and> strip (TcpControlBits_str x) = TcpControlBits_str x
   \<and> TcpControlBits_str
        (TcpControlBits_init False False False False True False False True False) = ''ack syn''"
proof -
  have "TcpControlBits_str
          (TcpControlBits_init False False False False True False False True False) = ''ack syn''"
    by (simp add: TcpControlBits_str_def TcpControlBits_init_def set_flag_def set_bit_py_def
        ns_def cwr_def ece_def urg_def ack_def psh_def rst_def syn_def fin_def
        is_flag_set_def is_bit_set_def mask_defs strip_def isspace_def)
  then show ?thesis
    by (simp add: TcpControlBits_str_eq strip_join_spaces set_flag_names_words)
qed

subsection \<open>The two packet classes compute the same\<close>

lemma transport_init_eq: "transport_TcpPacket_init = TcpPacket_init"
  by (intro ext) (simp add: transport_TcpPacket_init_def TcpPacket_init_def)

lemma transport_pseudo_eq: "transport_get_pseudo_header = get_pseudo_header"
  by (intro ext) (simp add: transport_get_pseudo_header_def get_pseudo_header_def)

lemma transport_from_bytes_eq: "transport_from_bytes bs = from_bytes bs"
  unfolding transport_from_bytes_def from_bytes_def transport_init_eq by (rule refl)

lemma transport_to_bytes_eq: "transport_to_bytes lc p = to_bytes lc p"
  unfolding transport_to_bytes_def to_bytes_def transport_pseudo_eq calc_tcp_checksum_def
  by (rule refl)




lemma spec_helpers_simps:
  "validate_port_num_of (spec_helpers lc) = validate_port_num"
  "validate_packet_length_of (spec_helpers lc) = validate_packet_length lc"
  "header_length_of (spec_helpers lc) = TCP_HEADER_LENGTH"
  "header_length_bytes_of (spec_helpers lc) = TCP_HEADER_LENGTH_BYTES"
  "options_to_bytes_of (spec_helpers lc) = options_to_bytes"
  "options_from_bytes_of (spec_helpers lc) = options_from_bytes"
  "from_int_of (spec_helpers lc) = from_int"
  by (simp_all add: spec_helpers_def)

lemma to_bytes_spec_helpers:
  "to_bytes lc p = to_bytes_with (spec_helpers lc) calc_tcp_checksum p"
  unfolding to_bytes_def to_bytes_with_def spec_helpers_simps by (rule refl)

lemma TcpPacket_init_spec_helpers: "TcpPacket_init = TcpPacket_init_with (spec_helpers lc)"
  unfolding TcpPacket_init_def TcpPacket_init_with_def spec_helpers_simps by (rule refl)

lemma from_bytes_spec_helpers: "from_bytes bs = from_bytes_with (spec_helpers lc) bs"
  unfolding from_bytes_def from_bytes_with_def spec_helpers_simps
    TcpPacket_init_spec_helpers [of lc, symmetric]
  by (rule refl)

lemma transport_to_bytes_spec_helpers:
  "transport_to_bytes lc p
     = transport_to_bytes_with (spec_helpers lc) transport_get_pseudo_header p"
  unfolding transport_to_bytes_def transport_to_bytes_with_def spec_helpers_simps
  by (rule refl)

lemma transport_TcpPacket_init_spec_helpers:
  "transport_TcpPacket_init = transport_TcpPacket_init_with (spec_helpers lc)"
  unfolding transport_TcpPacket_init_def transport_TcpPacket_init_with_def spec_helpers_simps
  by (rule refl)

lemma transport_from_bytes_spec_helpers:
  "transport_from_bytes bs = transport_from_bytes_with (spec_helpers lc) bs"
  unfolding transport_from_bytes_def transport_from_bytes_with_def spec_helpers_simps
    transport_TcpPacket_init_spec_helpers [of lc, symmetric]
  by (rule refl)



subsection \<open>The test scenario\<close>

lemmas to_bytes_eval_defs = options_to_bytes_def be32_bytes_def
  TCP_HEADER_LENGTH_def TcpControlBits_init_def set_flag_def set_bit_py_def mask_defs
  pack_tcp_header_def pack_H_def pack_I_def pack_B_def pack_4s_def get_pseudo_header_def
  calc_tcp_checksum_def calc_checksum_def int_to_bytes2_def
  NOP_def TIMESTAMPS_def END_OF_OPTION_LIST_def validate_packet_length_def

lemmas from_bytes_eval_defs = TCP_HEADER_LENGTH_BYTES_def TCP_HEADER_LENGTH_def
  unpack_tcp_header_def slice_def be_int_def slice_to_def slice_from_def TcpPacket_init_def
  validate_port_num_def from_int_def TcpControlBits_init_def set_flag_def set_bit_py_def
  is_bit_set_def mask_defs NOP_def TIMESTAMPS_def END_OF_OPTION_LIST_def

text \<open>
  C1, as stated, fails on the length only: the hexadecimal string of the claim has 64
  digits, and the code returns these 32 bytes (20 of header, 12 of options), not 34.
\<close>

theorem to_bytes_test_scenario_length:
  "map_sum id length (to_bytes test_length_constraint test_packet) = Inr 32
   \<and> map_sum id length (to_bytes test_length_constraint test_packet) \<noteq> Inr 34"
  by (simp add: to_bytes_def test_packet_def test_length_constraint_def to_bytes_eval_defs)

text \<open>
  C1, amended. With source port 59700, destination port 443, sequence number 1407506493,
  acknowledgment number 3676709599, the flag ACK, window size 501, urgent pointer 0, the
  options NoOp, NoOp, Timestamps(3252488245, 365238493), an empty payload and an underlying
  IPv4 packet from 192.168.1.32 to 35.160.240.60 with protocol TCP, \<open>to_bytes\<close> of either
  package returns the 32 bytes
  \<open>e93401bb53e4d83ddb2622df801001f5915600000101080ac1dd083515c518dd\<close>, whenever the length
  bounds admit 32 bytes.
\<close>

theorem to_bytes_test_scenario:
  assumes "min_length lc \<le> 32" and "32 \<le> max_length lc"
  shows "to_bytes lc test_packet = Inr test_bytes
         \<and> transport_to_bytes lc test_packet = Inr test_bytes"
  using assms unfolding transport_to_bytes_eq
  by (simp add: to_bytes_def test_packet_def to_bytes_eval_defs test_bytes_def)

theorem to_bytes_test_scenario_witness:
  "min_length test_length_constraint \<le> 32 \<and> 32 \<le> max_length test_length_constraint
   \<and> to_bytes test_length_constraint test_packet = Inr test_bytes
   \<and> transport_to_bytes test_length_constraint test_packet = Inr test_bytes"
  using to_bytes_test_scenario [of test_length_constraint]
  by (simp add: test_length_constraint_def)

subsection \<open>Parsing\<close>

text \<open>
  C6. For a data offset below 5 \<open>from_bytes\<close> is claimed to fail. The code computes a
  negative \<open>options_len\<close> and slices with it. On 20 zero bytes (data offset 0) it returns
  the packet with all fields zero. On a header with data offset 4 followed by the eight
  bytes \<open>01 01 01 01 09 09 09 09\<close> the slices count from the end: the first four bytes are
  decoded as options and the last four are the payload.
\<close>

theorem from_bytes_data_offset_below_5_returns:
  "(from_bytes (replicate 20 0) :: error + unit tcp_packet) =
     Inr \<lparr>source_port = 0, dest_port = 0, sequence_number = 0, ack_number = 0,
          flags = TcpControlBits 0, win_size = 0, urg_pointer = 0, options = [],
          payload = [], underlying_packet = NoPacket, upper_layer = NoPacket\<rparr>
   \<and> (from_bytes ([0, 1, 0, 2, 0, 0, 0, 0, 0, 0, 0, 0, 0x40, 0x02, 0, 0, 0, 0, 0, 0]
                    @ [1, 1, 1, 1, 9, 9, 9, 9]) :: error + unit tcp_packet) =
     Inr \<lparr>source_port = 1, dest_port = 2, sequence_number = 0, ack_number = 0,
          flags = TcpControlBits 2, win_size = 0, urg_pointer = 0,
          options = [NoOp, NoOp, NoOp, NoOp], payload = [9, 9, 9, 9],
          underlying_packet = NoPacket, upper_layer = NoPacket\<rparr>"
proof -
  have zeros: "replicate 20 (0 :: byte) = [0, 0, 0, 0, 0, 0, 0, 0, 0, 0, 0, 0, 0, 0, 0, 0, 0, 0, 0, 0]"
    by (simp add: numeral_eq_Suc)
  show ?thesis
    unfolding zeros by (simp add: from_bytes_def from_bytes_eval_defs)
qed

subsection \<open>Equality with other objects\<close>

text \<open>
  C10. For every \<open>TcpControlBits\<close> value and every object that is not a \<open>TcpControlBits\<close>,
  \<open>__eq__\<close> returns \<open>None\<close>; the \<open>__eq__\<close> of either \<open>TcpPacket\<close> returns \<open>None\<close> for every
  object that is not an instance of its own class; and between two \<open>TcpControlBits\<close> the
  result is whether the packed integers are equal.
\<close>

theorem eq_not_instance_returns_None:
  "(\<not> isinstance_TcpControlBits y \<longrightarrow> TcpControlBits_eq x y = None)
   \<and> (\<not> isinstance_TcpPacket y \<longrightarrow> TcpPacket_eq p y = None)
   \<and> (\<not> isinstance_transport_TcpPacket y \<longrightarrow> transport_TcpPacket_eq p y = None)
   \<and> TcpControlBits_eq x (TcpControlBitsObj z :: 'p py_object)
       = Some (flags_int x = flags_int z)"
  by (cases y) simp_all

theorem eq_not_instance_returns_None_witness:
  "\<not> isinstance_TcpControlBits (OtherObj :: unit py_object)
   \<and> \<not> isinstance_TcpPacket (OtherObj :: unit py_object)
   \<and> \<not> isinstance_transport_TcpPacket (OtherObj :: unit py_object)
   \<and> TcpControlBits_eq (TcpControlBits 18) (OtherObj :: unit py_object) = None
   \<and> TcpPacket_eq test_packet OtherObj = None
   \<and> transport_TcpPacket_eq test_packet OtherObj = None
   \<and> TcpControlBits_eq (TcpControlBits 18) (TcpControlBitsObj (TcpControlBits 18) :: unit py_object)
       = Some (flags_int (TcpControlBits 18) = flags_int (TcpControlBits 18))"
  using eq_not_instance_returns_None
          [of OtherObj "TcpControlBits 18" test_packet "TcpControlBits 18"]
  by simp

subsection \<open>Bytes and bits\<close>

lemma pad_aligned: "(n + (4 - n mod 4) mod 4) mod 4 = (0::nat)"
proof -
  define r where "r = n mod 4"
  have "r < 4" by (simp add: r_def)
  then have cases: "r = 0 \<or> r = 1 \<or> r = 2 \<or> r = 3"
    by (auto simp: less_Suc_eq numeral_eq_Suc)
  have "(n + (4 - r) mod 4) mod 4 = (r + (4 - r) mod 4) mod 4"
    unfolding r_def by (simp add: mod_add_left_eq)
  also have "\<dots> = 0"
    using cases by auto
  finally show ?thesis
    unfolding r_def .
qed

lemma options_to_bytes_aligned: "length (options_to_bytes opts) mod 4 = 0"
  unfolding options_to_bytes_def Let_def length_append length_replicate by (rule pad_aligned)

lemma take2: "2 \<le> length xs \<Longrightarrow> take 2 xs = [xs ! 0, xs ! 1]"
proof -
  assume "2 \<le> length xs"
  then obtain a b ys where "xs = a # b # ys"
    by (cases xs; cases "tl xs") auto
  then show ?thesis by simp
qed

lemma slice_field: "14 \<le> length bs \<Longrightarrow> slice 12 14 (take 20 bs) = [bs ! 12, bs ! 13]"
  by (simp add: slice_def take2)

lemma reserved_bits_iff:
  "(drop_bit 9 x AND 7 \<noteq> (0::int)) \<longleftrightarrow> (bit x 9 \<or> bit x 10 \<or> bit x 11)"
proof -
  have m: "(7::int) = mask 3" by (simp add: mask_eq_exp_minus_1)
  have "(drop_bit 9 x AND mask 3 = 0) \<longleftrightarrow> (\<forall>n<3. \<not> bit x (9 + n))"
    by (auto simp: bit_eq_iff bit_simps)
  also have "\<dots> \<longleftrightarrow> \<not> (bit x 9 \<or> bit x 10 \<or> bit x 11)"
    by (auto simp: numeral_3_eq_3 less_Suc_eq)
  finally show ?thesis unfolding m by blast
qed

lemma be_int_H:
  "0 \<le> v \<Longrightarrow> v \<le> 65535 \<Longrightarrow> be_int [word_of_int (drop_bit 8 v), word_of_int v :: byte] = v"
  by (simp add: be_int_def uint_word_of_int_eq take_bit_eq_mod drop_bit_eq_div)

lemma be_int_I:
  assumes "0 \<le> v" "v \<le> 4294967295"
  shows "be_int [word_of_int (drop_bit 24 v), word_of_int (drop_bit 16 v),
                 word_of_int (drop_bit 8 v), word_of_int v :: byte] = v"
proof -
  define a where "a = v div 256"
  define b where "b = a div 256"
  define c where "c = b div 256"
  have 1: "a * 256 + v mod 256 = v" and 2: "b * 256 + a mod 256 = a"
    and 3: "c * 256 + b mod 256 = b"
    by (simp_all add: a_def b_def c_def)
  have d: "v div 65536 = b" "v div 16777216 = c"
    by (simp_all add: a_def b_def c_def zdiv_zmult2_eq)
  have "c < 256" "0 \<le> c"
    using assms by (simp_all add: d [symmetric])
  then have cm: "c mod 256 = c" by simp
  have "be_int [word_of_int (drop_bit 24 v), word_of_int (drop_bit 16 v),
                word_of_int (drop_bit 8 v), word_of_int v :: byte]
        = ((c mod 256 * 256 + b mod 256) * 256 + a mod 256) * 256 + v mod 256"
    by (simp add: be_int_def uint_word_of_int_eq take_bit_eq_mod drop_bit_eq_div d
        a_def [symmetric])
  also have "\<dots> = v"
    by (simp only: cm 3 2 1)
  finally show ?thesis .
qed

subsection \<open>Reserved bits\<close>

lemma be_int_2: "be_int [b0, b1] = uint b0 * 256 + uint b1"
  by (simp add: be_int_def)

lemma unpack_tcp_header_field:
  assumes "20 \<le> length bs"
  shows "\<exists>sp dp sq ak ws ck up.
           unpack_tcp_header (take TCP_HEADER_LENGTH_BYTES bs)
             = Inr (sp, dp, sq, ak, offset_flags_field bs, ws, ck, up)"
  using assms
  by (simp add: unpack_tcp_header_def TCP_HEADER_LENGTH_BYTES_def slice_field be_int_2
      offset_flags_field_def)

text \<open>
  C5. For every input that has an offset/flags field (at least 14 bytes) in which one of the
  bits 9, 10, 11 is set, \<open>from_bytes\<close> of either package fails with a malformed-header
  error and returns no packet: with \<open>struct.error\<close> when the fixed header is truncated
  (fewer than 20 bytes), with the \<open>ValueError\<close> of the reserved bits otherwise.
\<close>

theorem from_bytes_reserved_bits_rejected:
  assumes "14 \<le> length bs"
    and "bit (offset_flags_field bs) 9 \<or> bit (offset_flags_field bs) 10
         \<or> bit (offset_flags_field bs) 11"
  shows "(from_bytes bs :: error + 'p tcp_packet)
           = Inl (if length bs < 20 then StructError else ReservedBitsNotZero)
         \<and> (transport_from_bytes bs :: error + 'p tcp_packet)
           = Inl (if length bs < 20 then StructError else ReservedBitsNotZero)"
proof (cases "length bs < 20")
  case True
  then show ?thesis
    unfolding transport_from_bytes_eq
    by (simp add: from_bytes_def unpack_tcp_header_def TCP_HEADER_LENGTH_BYTES_def)
next
  case False
  then have "20 \<le> length bs" by simp
  from unpack_tcp_header_field [OF this] obtain sp dp sq ak ws ck up where
    u: "unpack_tcp_header (take TCP_HEADER_LENGTH_BYTES bs)
          = Inr (sp, dp, sq, ak, offset_flags_field bs, ws, ck, up)"
    by blast
  have r: "drop_bit 9 (offset_flags_field bs) AND 7 \<noteq> 0"
    using assms(2) by (simp add: reserved_bits_iff)
  show ?thesis
    unfolding transport_from_bytes_eq using False r
    by (simp add: from_bytes_def u Let_def)
qed

theorem from_bytes_reserved_bits_rejected_witness:
  "14 \<le> length (test_bytes[12 := 0x82])
   \<and> bit (offset_flags_field (test_bytes[12 := 0x82])) 9
   \<and> (from_bytes (test_bytes[12 := 0x82]) :: error + unit tcp_packet) = Inl ReservedBitsNotZero
   \<and> (transport_from_bytes (test_bytes[12 := 0x82]) :: error + unit tcp_packet) = Inl ReservedBitsNotZero"
proof -
  have a: "14 \<le> length (test_bytes[12 := 0x82])" by (simp add: test_bytes_def)
  have b: "bit (offset_flags_field (test_bytes[12 := 0x82])) 9"
    by (simp add: test_bytes_def offset_flags_field_def bit_iff_odd)
  show ?thesis using from_bytes_reserved_bits_rejected [OF a disjI1, OF b, where ?'p = unit] a b
    by (simp add: test_bytes_def)
qed

subsection \<open>Port bounds\<close>

lemma pack_all_err:
  "pack_all xs = Inl e \<Longrightarrow> Inl e \<in> set xs"
  by (induction xs rule: pack_all.induct) (auto split: sum.splits)

lemma pack_H_err: "pack_H v = Inl e \<Longrightarrow> e = StructError"
  by (simp add: pack_H_def split: if_splits)

lemma pack_I_err: "pack_I v = Inl e \<Longrightarrow> e = StructError"
  by (simp add: pack_I_def split: if_splits)

lemma pack_B_err: "pack_B v = Inl e \<Longrightarrow> e = StructError"
  by (simp add: pack_B_def split: if_splits)

lemma pack_tcp_header_err:
  "pack_tcp_header f0 f1 f2 f3 f4 f5 f6 f7 = Inl e \<Longrightarrow> e = StructError"
  unfolding pack_tcp_header_def
  by (drule pack_all_err) (auto dest: pack_H_err [OF sym] pack_I_err [OF sym])

lemma get_pseudo_header_err:
  "get_pseudo_header p n = Inl e \<Longrightarrow> e = StructError \<or> e = UnderlyingNotIpPacket"
proof (cases "underlying_packet p")
  case (IpPacketRef ip)
  assume "get_pseudo_header p n = Inl e"
  then have "pack_all [Inr (pack_4s (source_addr_raw ip)), Inr (pack_4s (dest_addr_raw ip)),
                       pack_B 0, pack_B (protocol ip), pack_H n] = Inl e"
    by (simp add: get_pseudo_header_def IpPacketRef del: pack_all.simps)
  from pack_all_err [OF this] show ?thesis
    by (auto dest: pack_H_err [OF sym] pack_B_err [OF sym])
qed (simp_all add: get_pseudo_header_def)

lemma sum_words_err: "sum_words bs c = Inl e \<Longrightarrow> e = IndexError"
  by (induction bs c rule: sum_words.induct) auto

lemma calc_checksum_err: "calc_checksum bs = Inl e \<Longrightarrow> e = IndexError"
  by (auto simp: calc_checksum_def Let_def split: sum.splits dest: sum_words_err)

lemma calc_tcp_checksum_err: "calc_tcp_checksum ph h r = Inl e \<Longrightarrow> e = IndexError"
  by (auto simp: calc_tcp_checksum_def dest: calc_checksum_err)

lemma int_to_bytes2_err: "int_to_bytes2 v = Inl e \<Longrightarrow> e = OverflowError"
  by (simp add: int_to_bytes2_def split: if_splits)

lemma validate_packet_length_err:
  "validate_packet_length lc bs = Inl e \<Longrightarrow> e = LengthConstraintViolation"
  by (simp add: validate_packet_length_def split: if_splits)

text \<open>
  C8. Constructing a \<open>TcpPacket\<close> of either package with source or destination port -1
  or 65536 fails with \<open>InvalidArgument\<close>, whatever the other arguments; the ports 0 and
  65535 are accepted; every constructed packet has both ports in the range 0 to 65535; and
  \<open>to_bytes\<close> never fails with \<open>InvalidArgument\<close>: the ports are checked at construction
  only.
\<close>

theorem port_bounds_at_construction:
  "(port = -1 \<or> port = 65536 \<longrightarrow>
      (TcpPacket_init port other sq ak fl ws up os pl :: error + 'p tcp_packet) = Inl InvalidArgument
      \<and> (TcpPacket_init other port sq ak fl ws up os pl :: error + 'p tcp_packet) = Inl InvalidArgument
      \<and> (transport_TcpPacket_init port other sq ak fl ws up os pl :: error + 'p tcp_packet) = Inl InvalidArgument
      \<and> (transport_TcpPacket_init other port sq ak fl ws up os pl :: error + 'p tcp_packet) = Inl InvalidArgument)
   \<and> (\<exists>p. TcpPacket_init 0 65535 sq ak fl ws up os pl = Inr (p :: 'p tcp_packet))
   \<and> (\<exists>p. TcpPacket_init 65535 0 sq ak fl ws up os pl = Inr (p :: 'p tcp_packet))
   \<and> (\<exists>p. transport_TcpPacket_init 0 65535 sq ak fl ws up os pl = Inr (p :: 'p tcp_packet))
   \<and> (\<exists>p. transport_TcpPacket_init 65535 0 sq ak fl ws up os pl = Inr (p :: 'p tcp_packet))
   \<and> (TcpPacket_init sp dp sq ak fl ws up os pl = Inr (p :: 'p tcp_packet)
         \<or> transport_TcpPacket_init sp dp sq ak fl ws up os pl = Inr p \<longrightarrow>
        0 \<le> source_port p \<and> source_port p \<le> 65535 \<and> 0 \<le> dest_port p \<and> dest_port p \<le> 65535)
   \<and> to_bytes lc q \<noteq> Inl InvalidArgument \<and> transport_to_bytes lc q \<noteq> Inl InvalidArgument"
proof -
  have "to_bytes lc q \<noteq> Inl InvalidArgument"
    by (auto simp: to_bytes_def Let_def split: sum.splits if_splits
        dest: pack_tcp_header_err get_pseudo_header_err calc_tcp_checksum_err
          int_to_bytes2_err validate_packet_length_err)
  then show ?thesis
    unfolding transport_to_bytes_eq transport_init_eq
    by (auto simp: TcpPacket_init_def validate_port_num_def split: if_splits)
qed

theorem port_bounds_at_construction_witness:
  "(TcpPacket_init (- 1) 443 0 0 (TcpControlBits 0) 65535 0 [] []
      :: error + unit tcp_packet) = Inl InvalidArgument
   \<and> (TcpPacket_init 443 (- 1) 0 0 (TcpControlBits 0) 65535 0 [] []
      :: error + unit tcp_packet) = Inl InvalidArgument
   \<and> (transport_TcpPacket_init (- 1) 443 0 0 (TcpControlBits 0) 65535 0 [] []
      :: error + unit tcp_packet) = Inl InvalidArgument
   \<and> (transport_TcpPacket_init 443 (- 1) 0 0 (TcpControlBits 0) 65535 0 [] []
      :: error + unit tcp_packet) = Inl InvalidArgument
   \<and> TcpPacket_init 59700 443 0 0 (TcpControlBits 0) 65535 0 [] []
       = Inr (test_packet\<lparr>sequence_number := 0, ack_number := 0, flags := TcpControlBits 0,
               win_size := 65535, options := [], underlying_packet := NoPacket\<rparr>)
   \<and> 0 \<le> source_port test_packet \<and> source_port test_packet \<le> 65535
   \<and> 0 \<le> dest_port test_packet \<and> dest_port test_packet \<le> 65535"
  using port_bounds_at_construction
          [where port = "- 1" and other = 443 and sq = 0 and ak = 0
             and fl = "TcpControlBits 0" and ws = 65535 and up = 0 and os = "[]"
             and pl = "[]" and sp = 59700 and dp = 443
             and p = "test_packet\<lparr>sequence_number := 0, ack_number := 0,
                        flags := TcpControlBits 0, win_size := 65535, options := [],
                        underlying_packet := NoPacket\<rparr>"
             and lc = test_length_constraint and q = test_packet]
  by (simp add: TcpPacket_init_def validate_port_num_def test_packet_def)

subsection \<open>The offset/flags field and the checksum of an even-length buffer\<close>

lemma is_bit_set_pow: "is_bit_set b (2 ^ k) = bit b k"
  by (simp add: is_bit_set_def and_exp_eq_0_iff_not_bit)

lemma set_bit_py_pow: "bit (set_bit_py n (2 ^ k) v) m = (if m = k then v else bit n m)"
  by (auto simp: set_bit_py_def bit_simps)

lemma is_bit_set_masks:
  "is_bit_set b 256 = bit b 8"
  "is_bit_set b 128 = bit b 7"
  "is_bit_set b 64 = bit b 6"
  "is_bit_set b 32 = bit b 5"
  "is_bit_set b 16 = bit b 4"
  "is_bit_set b 8 = bit b 3"
  "is_bit_set b 4 = bit b 2"
  "is_bit_set b 2 = bit b 1"
  "is_bit_set b 1 = bit b 0"
  using is_bit_set_pow [of b 8] is_bit_set_pow [of b 7] is_bit_set_pow [of b 6] is_bit_set_pow [of b 5] is_bit_set_pow [of b 4]
    is_bit_set_pow [of b 3] is_bit_set_pow [of b 2] is_bit_set_pow [of b 1] is_bit_set_pow [of b 0]
  by simp_all

lemma set_bit_py_masks:
  "bit (set_bit_py n 256 v) m = (if m = 8 then v else bit n m)"
  "bit (set_bit_py n 128 v) m = (if m = 7 then v else bit n m)"
  "bit (set_bit_py n 64 v) m = (if m = 6 then v else bit n m)"
  "bit (set_bit_py n 32 v) m = (if m = 5 then v else bit n m)"
  "bit (set_bit_py n 16 v) m = (if m = 4 then v else bit n m)"
  "bit (set_bit_py n 8 v) m = (if m = 3 then v else bit n m)"
  "bit (set_bit_py n 4 v) m = (if m = 2 then v else bit n m)"
  "bit (set_bit_py n 2 v) m = (if m = 1 then v else bit n m)"
  "bit (set_bit_py n 1 v) m = (if m = 0 then v else bit n m)"
  using set_bit_py_pow [of n 8 v m] set_bit_py_pow [of n 7 v m] set_bit_py_pow [of n 6 v m] set_bit_py_pow [of n 5 v m] set_bit_py_pow [of n 4 v m]
    set_bit_py_pow [of n 3 v m] set_bit_py_pow [of n 2 v m] set_bit_py_pow [of n 1 v m] set_bit_py_pow [of n 0 v m]
  by simp_all

lemma from_int_low_bits: "from_int b = TcpControlBits (take_bit 9 b)"
proof -
  have "flags_int (from_int b) = take_bit 9 b"
  proof (rule bit_eqI)
    fix m :: nat
    have "m < 9 \<longleftrightarrow> m = 0 \<or> m = 1 \<or> m = 2 \<or> m = 3 \<or> m = 4 \<or> m = 5 \<or> m = 6 \<or> m = 7 \<or> m = 8"
      by auto
    then show "bit (flags_int (from_int b)) m = bit (take_bit 9 b) m"
      unfolding from_int_def TcpControlBits_init_def set_flag_def Let_def mask_defs
      by (auto simp: set_bit_py_masks is_bit_set_masks bit_take_bit_iff)
  qed
  then show ?thesis
    by (cases "from_int b") simp
qed

lemma and_511: "x AND 511 = take_bit 9 (x :: int)"
proof -
  have "(511 :: int) = mask 9" by (simp add: mask_eq_exp_minus_1)
  then show ?thesis by (simp add: take_bit_eq_mask)
qed

lemma offset_flags_bits:
  fixes d f :: int
  assumes "0 \<le> f" "f < 512" "0 \<le> d" "d < 16"
  shows "drop_bit 12 (push_bit 12 d OR f) = d"
    and "drop_bit 9 (push_bit 12 d OR f) AND 7 = 0"
    and "take_bit 9 (push_bit 12 d OR f) = f"
    and "0 \<le> push_bit 12 d OR f"
    and "push_bit 12 d OR f \<le> 65535"
proof -
  have f: "take_bit 9 f = f"
    using assms by (simp add: take_bit_int_eq_self)
  have f12: "drop_bit 12 f = 0" "drop_bit 9 f = 0"
    using assms by (simp_all add: drop_bit_eq_div)
  show "drop_bit 12 (push_bit 12 d OR f) = d"
    by (simp add: drop_bit_or f12 drop_bit_push_bit)
  have m: "(7::int) = mask 3" by (simp add: mask_eq_exp_minus_1)
  show "drop_bit 9 (push_bit 12 d OR f) AND 7 = 0"
    unfolding m by (simp add: drop_bit_or f12 drop_bit_push_bit flip: take_bit_eq_mask)
       (simp add: take_bit_push_bit)
  show "take_bit 9 (push_bit 12 d OR f) = f"
    by (simp add: take_bit_or f take_bit_push_bit)
  show "0 \<le> push_bit 12 d OR f"
    using assms by simp
  have "push_bit 12 d OR f < 2 ^ 16"
    using assms by (intro OR_upper) (simp_all add: push_bit_eq_mult)
  then show "push_bit 12 d OR f \<le> 65535"
    by simp
qed

lemma calc_checksum_even:
  assumes "even (length bs)"
  shows "\<exists>c. calc_checksum bs = Inr c \<and> 0 \<le> c \<and> c \<le> 65535"
proof -
  have "0 \<le> x AND 65535" "x AND 65535 \<le> 65535" for x :: int
    by (simp_all add: AND_upper2)
  then show ?thesis
    using assms by (simp add: calc_checksum_def sum_words_even Let_def)
qed

subsection \<open>Serializing and parsing back\<close>

lemma pack_tcp_header_ok:
  assumes "0 \<le> f0" "f0 \<le> 65535" "0 \<le> f1" "f1 \<le> 65535" "0 \<le> f2" "f2 \<le> 4294967295"
    "0 \<le> f3" "f3 \<le> 4294967295" "0 \<le> f4" "f4 \<le> 65535" "0 \<le> f5" "f5 \<le> 65535"
    "0 \<le> f7" "f7 \<le> 65535"
  shows "\<exists>h. pack_tcp_header f0 f1 f2 f3 f4 f5 0 f7 = Inr h \<and> length h = 20
             \<and> (\<forall>a b. \<exists>ck. unpack_tcp_header (h[16 := a, 17 := b])
                            = Inr (f0, f1, f2, f3, f4, f5, ck, f7))"
  using assms
  by (simp add: pack_tcp_header_def pack_H_def pack_I_def unpack_tcp_header_def slice_def
      be_int_H be_int_I)

lemma get_pseudo_header_ok:
  assumes "underlying_packet p = IpPacketRef ip" "0 \<le> protocol ip" "protocol ip \<le> 255"
    "0 \<le> n" "n \<le> 65535"
  shows "\<exists>ph. get_pseudo_header p n = Inr ph \<and> length ph = 12"
  using assms
  by (simp add: get_pseudo_header_def pack_B_def pack_H_def pack_4s_def)

lemma slice_to_append: "slice_to (int (length xs)) (xs @ ys) = xs"
  by (simp add: slice_to_def)

lemma slice_from_append: "slice_from (int (length xs)) (xs @ ys) = ys"
  by (simp add: slice_from_def)

lemma to_bytes_from_bytes:
  assumes v: "valid_tcp_packet p"
    and ip: "underlying_packet p = IpPacketRef ip" "0 \<le> protocol ip" "protocol ip \<le> 255"
    and ev: "even (length (payload p))"
    and ol: "length (options_to_bytes (options p)) \<le> 40"
    and od: "options_from_bytes (options_to_bytes (options p)) = Inr os"
    and lmin: "min_length lc \<le> 20 + length (options_to_bytes (options p)) + length (payload p)"
    and lmax: "20 + length (options_to_bytes (options p)) + length (payload p) \<le> max_length lc"
    and l16: "20 + length (options_to_bytes (options p)) + length (payload p) \<le> 65535"
  shows "(case to_bytes lc p of Inl e \<Rightarrow> Inl e | Inr bs \<Rightarrow> from_bytes bs)
           = Inr (p\<lparr>options := os, underlying_packet := NoPacket, upper_layer := NoPacket\<rparr>)"
proof -
  define ob where "ob = options_to_bytes (options p)"
  define d where "d = int TCP_HEADER_LENGTH + int (length ob div 4)"
  define x where "x = push_bit 12 d OR flags_int (flags p)"
  have al: "length ob mod 4 = 0"
    unfolding ob_def by (rule options_to_bytes_aligned)
  then have len4: "length ob div 4 * 4 = length ob"
    by (simp add: mod_0_imp_dvd)
  have d: "0 \<le> d" "d < 16"
    using ol by (simp_all add: d_def ob_def TCP_HEADER_LENGTH_def)
  have f: "0 \<le> flags_int (flags p)" "flags_int (flags p) < 512"
    using v by (simp_all add: valid_tcp_packet_def)
  note xb = offset_flags_bits [OF f d, folded x_def]
  obtain h where h: "pack_tcp_header (source_port p) (dest_port p) (sequence_number p)
        (ack_number p) x (win_size p) 0 (urg_pointer p) = Inr h" "length h = 20"
    and hu: "\<And>a b. \<exists>ck. unpack_tcp_header (h[16 := a, 17 := b])
       = Inr (source_port p, dest_port p, sequence_number p, ack_number p, x, win_size p, ck,
              urg_pointer p)"
    using pack_tcp_header_ok [of "source_port p" "dest_port p" "sequence_number p"
        "ack_number p" x "win_size p" "urg_pointer p"] v xb(4,5)
    by (auto simp: valid_tcp_packet_def)
  define n where "n = d * 4 + int (length (payload p))"
  have n: "0 \<le> n" "n \<le> 65535"
    using l16 len4 by (simp_all add: n_def d_def ob_def [symmetric] TCP_HEADER_LENGTH_def)
  obtain ph where ph: "get_pseudo_header p n = Inr ph" "length ph = 12"
    using get_pseudo_header_ok [OF ip n] by blast
  have "even (length ob div 4 * 4)"
    by simp
  then have "even (length ob)"
    unfolding len4 .
  then have "even (length (ph @ h @ ob @ payload p))"
    using ph(2) h(2) ev by simp
  from calc_checksum_even [OF this] obtain c where
    c: "calc_checksum (ph @ h @ ob @ payload p) = Inr c" "0 \<le> c" "c \<le> 65535"
    by blast
  define h' where "h' = h[16 := word_of_int (drop_bit 8 c), 17 := word_of_int c]"
  have tb: "to_bytes lc p = Inr (h' @ ob @ payload p)"
    using al h(1) ph(1) c lmin lmax h(2)
    by (simp add: to_bytes_def Let_def ob_def [symmetric] d_def [symmetric] x_def [symmetric]
        n_def [symmetric] calc_tcp_checksum_def int_to_bytes2_def validate_packet_length_def
        h'_def)
  have lh': "length h' = 20"
    by (simp add: h'_def h(2))
  obtain ck where u: "unpack_tcp_header h'
       = Inr (source_port p, dest_port p, sequence_number p, ack_number p, x, win_size p, ck,
              urg_pointer p)"
    using hu unfolding h'_def by blast
  have ol': "(d - int TCP_HEADER_LENGTH) * 4 = int (length ob)"
    using len4 by (simp add: d_def)
  then have ol'': "d * 4 - int TCP_HEADER_LENGTH * 4 = int (length ob)"
    by (simp add: algebra_simps)
  have fl: "from_int (x AND 511) = flags p"
    using f by (simp add: and_511 xb(3) from_int_low_bits take_bit_int_eq_self)
  have fb: "from_bytes (h' @ ob @ payload p)
              = TcpPacket_init (source_port p) (dest_port p) (sequence_number p) (ack_number p)
                  (flags p) (win_size p) (urg_pointer p) os (payload p)"
    using lh' od
    by (simp add: from_bytes_def TCP_HEADER_LENGTH_BYTES_def u Let_def xb(1,2) fl ol' ol''
        slice_to_append slice_from_append ob_def [symmetric])
  have "TcpPacket_init (source_port p) (dest_port p) (sequence_number p) (ack_number p)
          (flags p) (win_size p) (urg_pointer p) os (payload p)
        = Inr (p\<lparr>options := os, underlying_packet := NoPacket, upper_layer := NoPacket\<rparr>)"
    using v by (cases p) (simp add: TcpPacket_init_def validate_port_num_def valid_tcp_packet_def)
  then show ?thesis
    by (simp add: tb fb)
qed

lemma be32_bits:
  fixes w :: "32 word"
  shows "((push_bit 24 (ucast (ucast (drop_bit 24 w :: 32 word) :: 8 word) :: 32 word) OR
          push_bit 16 (ucast (ucast (drop_bit 16 w :: 32 word) :: 8 word) :: 32 word)) OR
         push_bit 8 (ucast (ucast (drop_bit 8 w :: 32 word) :: 8 word) :: 32 word)) OR
        (ucast (ucast w :: 8 word) :: 32 word) = w"
proof (rule bit_word_eqI)
  fix n :: nat
  assume "n < LENGTH(32)"
  then consider "n < 8" | "8 \<le> n" "n < 16" | "16 \<le> n" "n < 24" | "24 \<le> n" "n < 32"
    by fastforce
  then show "bit (((push_bit 24 (ucast (ucast (drop_bit 24 w :: 32 word) :: 8 word) :: 32 word) OR
          push_bit 16 (ucast (ucast (drop_bit 16 w :: 32 word) :: 8 word) :: 32 word)) OR
         push_bit 8 (ucast (ucast (drop_bit 8 w :: 32 word) :: 8 word) :: 32 word)) OR
        (ucast (ucast w :: 8 word) :: 32 word)) n = bit w n"
    by cases (auto simp: bit_simps)
qed

lemma be32_roundtrip: "be32_word (be32_bytes w) = w"
  using be32_bits [of w] by (simp add: be32_word_def be32_bytes_def)

lemma replicate_3: "replicate 3 x = [x, x, x]"
  by (simp add: numeral_3_eq_3)

lemma options_from_bytes_decodable:
  "list_all decodable opts \<Longrightarrow>
   options_from_bytes (concat (map option_to_bytes opts) @ rest)
     = (case options_from_bytes rest of Inl e \<Rightarrow> Inl e | Inr os \<Rightarrow> Inr (opts @ os))"
proof (induction opts)
  case Nil
  then show ?case by (simp split: sum.splits)
next
  case (Cons opt opts)
  then have ih: "options_from_bytes (concat (map option_to_bytes opts) @ rest)
     = (case options_from_bytes rest of Inl e \<Rightarrow> Inl e | Inr os \<Rightarrow> Inr (opts @ os))"
    by simp
  show ?case
  proof (cases opt)
    case NoOp
    then show ?thesis
      by (simp add: ih NOP_def END_OF_OPTION_LIST_def split: sum.splits)
  next
    case (Sized kind vals)
    with Cons.prems obtain a b where "kind = TIMESTAMPS" "vals = [a, b]"
      by (cases vals; cases "tl vals") auto
    then show ?thesis
      using Sized
      using be32_roundtrip [of a] be32_roundtrip [of b]
      by (simp add: ih NOP_def END_OF_OPTION_LIST_def TIMESTAMPS_def
          be32_bytes_def be32_word_def split: sum.splits)
  qed (use Cons.prems in simp_all)
qed

lemma options_roundtrip_decodable:
  assumes "list_all decodable opts" "length (concat (map option_to_bytes opts)) mod 4 = 0"
  shows "options_from_bytes (options_to_bytes opts) = Inr opts"
  using options_from_bytes_decodable [OF assms(1), of "[]"] assms(2)
  by (simp add: options_to_bytes_def Let_def)

lemma options_from_bytes_padding:
  "options_from_bytes (replicate k NOP) = Inr (replicate k NoOp)"
  by (induction k) (simp_all add: NOP_def END_OF_OPTION_LIST_def)

lemma padding_length_less: "padding_length opts \<le> 3"
proof -
  have "padding_length opts < 4"
    by (simp add: padding_length_def)
  then show ?thesis
    by simp
qed

lemma options_parse:
  assumes "decodable_kinds opts"
  shows "options_from_bytes (options_to_bytes opts) = Inr (parsed_options opts)"
proof (cases "EndOfList \<in> set opts")
  case False
  with assms have "list_all decodable opts"
    by (auto simp: decodable_kinds_def list_all_iff)
  from options_from_bytes_decodable [OF this, of "replicate (padding_length opts) NOP"]
  show ?thesis
    using False
    by (simp add: options_to_bytes_def Let_def padding_length_def [symmetric]
        options_from_bytes_padding parsed_options_def)
next
  case True
  define front where "front = takeWhile (\<lambda>opt. opt \<noteq> EndOfList) opts"
  define rest where "rest = dropWhile (\<lambda>opt. opt \<noteq> EndOfList) opts"
  have opts_eq: "opts = front @ rest"
    by (simp add: front_def rest_def)
  have ne: "rest \<noteq> []"
    using True by (simp add: rest_def)
  then have "\<not> (hd rest \<noteq> EndOfList)"
    unfolding rest_def by (rule hd_dropWhile)
  with ne obtain more where rest: "rest = EndOfList # more"
    by (cases rest) auto
  have "list_all decodable front"
    using assms unfolding front_def decodable_kinds_def list_all_iff
    by (auto dest: set_takeWhileD)
  from options_from_bytes_decodable [OF this]
  have dec: "options_from_bytes
               (concat (map option_to_bytes front) @ END_OF_OPTION_LIST # xs)
             = Inr (front @ [EndOfList])" for xs
    by simp
  define k where "k = (4 - length (concat (map option_to_bytes opts)) mod 4) mod 4"
  have enc: "options_to_bytes opts = concat (map option_to_bytes opts) @ replicate k NOP"
    by (simp add: options_to_bytes_def Let_def k_def)
  have "concat (map option_to_bytes opts)
          = concat (map option_to_bytes front)
            @ END_OF_OPTION_LIST # concat (map option_to_bytes more)"
    by (simp add: opts_eq rest)
  then have "options_to_bytes opts
          = concat (map option_to_bytes front)
            @ END_OF_OPTION_LIST # (concat (map option_to_bytes more) @ replicate k NOP)"
    unfolding enc by simp
  then have "options_from_bytes (options_to_bytes opts) = Inr (front @ [EndOfList])"
    by (simp only: dec)
  then show ?thesis
    using True by (simp add: parsed_options_def front_def)
qed

text \<open>
  C2, as stated, fails. The options are not reproduced when encoding pads them: the single
  option \<open>NoOp\<close> is encoded with three padding bytes, which are parsed as three more
  options. And a valid packet with a payload of odd length is not serialized at all: the
  checksum raises \<open>IndexError\<close>.
\<close>

theorem to_bytes_from_bytes_not_identity:
  "(case to_bytes test_length_constraint (test_packet\<lparr>options := [NoOp]\<rparr>) of
      Inl e \<Rightarrow> Inl e | Inr bs \<Rightarrow> from_bytes bs)
     = Inr (test_packet\<lparr>options := [NoOp, NoOp, NoOp, NoOp], underlying_packet := NoPacket\<rparr>)
   \<and> to_bytes test_length_constraint (test_packet\<lparr>payload := [0x01]\<rparr>) = Inl IndexError
   \<and> transport_to_bytes test_length_constraint (test_packet\<lparr>payload := [0x01]\<rparr>)
       = Inl IndexError"
  unfolding transport_to_bytes_eq
  by (simp add: to_bytes_def test_packet_def test_length_constraint_def to_bytes_eval_defs
      from_bytes_def from_bytes_eval_defs replicate_3)

text \<open>
  C2, amended. For every packet whose fields fit their header fields, with an underlying IP
  packet whose protocol number fits a byte, a payload of even length, options of the
  decodable kinds (\<open>EndOfList\<close>, \<open>NoOp\<close>, Timestamps with two values) whose encoding takes
  at most 40 bytes, and a total length that is at most 65535 and within the length bounds,
  \<open>to_bytes\<close> succeeds and \<open>from_bytes\<close> of its result has the ports, sequence and
  acknowledgment numbers, flags, window size, urgent pointer and payload of the packet, no
  reference to a neighbouring packet, and these options: the options of the packet up to
  and including its first \<open>EndOfList\<close> when it has one, and otherwise all its options, value
  for value and in order, followed by one \<open>NoOp\<close> for each of the at most three padding
  bytes. Without \<open>EndOfList\<close> and without padding these are the options of the packet. This
  holds for both packages.
\<close>

theorem to_bytes_from_bytes_roundtrip:
  assumes "valid_tcp_packet p"
    and "underlying_packet p = IpPacketRef ip" and "0 \<le> protocol ip" and "protocol ip \<le> 255"
    and "even (length (payload p))"
    and "decodable_kinds (options p)"
    and "length (options_to_bytes (options p)) \<le> 40"
    and "min_length lc \<le> 20 + length (options_to_bytes (options p)) + length (payload p)"
    and "20 + length (options_to_bytes (options p)) + length (payload p) \<le> max_length lc"
    and "20 + length (options_to_bytes (options p)) + length (payload p) \<le> 65535"
  shows "(case to_bytes lc p of Inl e \<Rightarrow> Inl e | Inr bs \<Rightarrow> from_bytes bs)
           = Inr (p\<lparr>options := parsed_options (options p),
                    underlying_packet := NoPacket, upper_layer := NoPacket\<rparr>)
         \<and> (case transport_to_bytes lc p of Inl e \<Rightarrow> Inl e | Inr bs \<Rightarrow> transport_from_bytes bs)
           = Inr (p\<lparr>options := parsed_options (options p),
                    underlying_packet := NoPacket, upper_layer := NoPacket\<rparr>)
         \<and> padding_length (options p) \<le> 3
         \<and> (EndOfList \<notin> set (options p) \<and> padding_length (options p) = 0
              \<longrightarrow> parsed_options (options p) = options p)"
  unfolding transport_to_bytes_eq transport_from_bytes_eq
  using to_bytes_from_bytes [OF assms(1-5,7) options_parse [OF assms(6)] assms(8-10)]
  by (simp add: padding_length_less parsed_options_def)

theorem to_bytes_from_bytes_roundtrip_witness:
  "valid_tcp_packet test_packet
   \<and> even (length (payload test_packet))
   \<and> decodable_kinds (options test_packet)
   \<and> length (options_to_bytes (options test_packet)) \<le> 40
   \<and> EndOfList \<notin> set (options test_packet) \<and> padding_length (options test_packet) = 0
   \<and> (case to_bytes test_length_constraint test_packet of
         Inl e \<Rightarrow> Inl e | Inr bs \<Rightarrow> from_bytes bs)
       = Inr (test_packet\<lparr>underlying_packet := NoPacket, upper_layer := NoPacket\<rparr>)
   \<and> (case transport_to_bytes test_length_constraint test_packet of
         Inl e \<Rightarrow> Inl e | Inr bs \<Rightarrow> transport_from_bytes bs)
       = Inr (test_packet\<lparr>underlying_packet := NoPacket, upper_layer := NoPacket\<rparr>)"
proof -
  have v: "valid_tcp_packet test_packet"
    by (simp add: valid_tcp_packet_def test_packet_def TcpControlBits_init_def set_flag_def
        set_bit_py_def mask_defs)
  have ob: "options_to_bytes (options test_packet)
              = [1, 1, 8, 10, 0xc1, 0xdd, 0x08, 0x35, 0x15, 0xc5, 0x18, 0xdd]"
    by (simp add: test_packet_def to_bytes_eval_defs)
  have dk: "decodable_kinds (options test_packet)"
    by (simp add: test_packet_def decodable_kinds_def)
  have ne: "EndOfList \<notin> set (options test_packet)"
    by (simp add: test_packet_def)
  have pl: "padding_length (options test_packet) = 0"
    by (simp add: test_packet_def padding_length_def to_bytes_eval_defs)
  have ip: "underlying_packet test_packet
              = IpPacketRef \<lparr>source_addr_raw = [192, 168, 1, 32],
                   dest_addr_raw = [35, 160, 240, 60], protocol = 6\<rparr>"
    by (simp add: test_packet_def)
  have ev: "even (length (payload test_packet))"
    by (simp add: test_packet_def)
  have ol: "length (options_to_bytes (options test_packet)) \<le> 40"
    by (simp add: ob)
  have l: "min_length test_length_constraint
            \<le> 20 + length (options_to_bytes (options test_packet)) + length (payload test_packet)"
    "20 + length (options_to_bytes (options test_packet)) + length (payload test_packet)
            \<le> max_length test_length_constraint"
    "20 + length (options_to_bytes (options test_packet)) + length (payload test_packet) \<le> 65535"
    by (simp_all only: ob) (simp_all add: test_length_constraint_def test_packet_def)
  show ?thesis
    using to_bytes_from_bytes_roundtrip [OF v ip _ _ ev dk ol l] v ev dk ol ne pl
    by simp
qed

end
